theory Spec2Isabelle
  imports Main "HOL-Library.Sublist"
begin

section \<open>Tabular data\<close>

text \<open>
  A cell of a table is missing (\<open>Null\<close>: pandas' NaN or None), a number or a string.
  The numeric type \<open>'v\<close> is left open: the engine only subtracts two numbers and
  compares the difference with zero, so every result below holds for unbounded integers,
  for 64-bit integers that wrap around and for any other carrier with \<open>-\<close> and \<open>0\<close>.
\<close>

datatype 'v cell = Null | Num 'v | Str string

text \<open>
  A data frame with the default positional index: its column labels and its rows, each
  row listing its cells in column order. A row shorter than the header is read as
  missing in the remaining columns, as \<open>read_csv\<close> fills it. The labels of a frame
  that \<open>read_csv\<close> returns are distinct (it renames a repeated label); a lookup takes
  the first column that carries the label.
\<close>

record 'v frame =
  columns :: "string list"
  rows :: "'v cell list list"

text \<open>
  A data frame after \<open>set_index\<close>: the label of every row is a cell of the former key
  column, which is no longer among the columns. Labels may repeat.
\<close>

record 'v keyed =
  index_name :: string
  kcolumns :: "string list"
  entries :: "('v cell \<times> 'v cell list) list"

datatype error = KeyError | TypeError | ValueError

definition ebind :: "error + 'a \<Rightarrow> ('a \<Rightarrow> error + 'b) \<Rightarrow> error + 'b" where
  "ebind m f = (case m of Inl e \<Rightarrow> Inl e | Inr x \<Rightarrow> f x)"

text \<open>\<open>pd.DataFrame()\<close>: no columns, no rows.\<close>

definition empty_frame :: "'v frame" where
  "empty_frame = \<lparr>columns = [], rows = []\<rparr>"

text \<open>The cell of row \<open>r\<close> under the first column labelled \<open>c\<close>.\<close>

fun getcol :: "string list \<Rightarrow> string \<Rightarrow> 'v cell list \<Rightarrow> 'v cell" where
  "getcol (x # xs) c (v # vs) = (if x = c then v else getcol xs c vs)"
| "getcol _ _ _ = Null"

text \<open>The cells of column \<open>c\<close>, row by row.\<close>

definition cells_of :: "'v frame \<Rightarrow> string \<Rightarrow> 'v cell list" where
  "cells_of df c = map (getcol (columns df) c) (rows df)"

text \<open>\<open>df[[c1, c2, ...]]\<close>: a new frame with the listed columns; KeyError when one is absent.\<close>

definition select :: "'v frame \<Rightarrow> string list \<Rightarrow> error + 'v frame" where
  "select df cs =
     (if \<forall>c\<in>set cs. c \<in> set (columns df)
      then Inr \<lparr>columns = cs, rows = map (\<lambda>r. map (\<lambda>c. getcol (columns df) c r) cs) (rows df)\<rparr>
      else Inl KeyError)"

text \<open>\<open>df.dropna()\<close>: a new frame without the rows that have a missing cell in any column.\<close>

definition dropna :: "'v frame \<Rightarrow> 'v frame" where
  "dropna df =
     \<lparr>columns = columns df,
      rows = filter (\<lambda>r. \<forall>c\<in>set (columns df). getcol (columns df) c r \<noteq> Null) (rows df)\<rparr>"

text \<open>
  \<open>df.set_index(key)\<close>: the key column becomes the index and leaves the columns.
  An absent key is a KeyError; a key label carried by two columns selects a
  two-dimensional block, which cannot become an index (ValueError).
\<close>

definition set_index :: "'v frame \<Rightarrow> string \<Rightarrow> error + 'v keyed" where
  "set_index df key =
     (if key \<notin> set (columns df) then Inl KeyError
      else if 1 < count_list (columns df) key then Inl ValueError
      else Inr \<lparr>index_name = key,
                kcolumns = filter (\<lambda>c. c \<noteq> key) (columns df),
                entries = map (\<lambda>r. (getcol (columns df) key r,
                                   map (\<lambda>c. getcol (columns df) c r)
                                       (filter (\<lambda>c. c \<noteq> key) (columns df))))
                              (rows df)\<rparr>)"

text \<open>\<open>pd.unique\<close>: the distinct elements in order of first appearance.\<close>

primrec unique :: "'a list \<Rightarrow> 'a list" where
  "unique [] = []"
| "unique (x # xs) = x # filter (\<lambda>y. y \<noteq> x) (unique xs)"

text \<open>
  How the library stores the labels of an index: as the labels themselves, or, for
  integers that step evenly, as a range that goes up or down (\<open>RangeIndex\<close>).
\<close>

datatype storage = Labels | RangeUp | RangeDown

text \<open>
  \<open>Index.intersection\<close> (\<open>sort=False\<close>): the distinct labels of the left index that
  occur in the right one. They come in the order of the left index, except for a range
  that goes down met with a range that goes up: two ranges are intersected as ranges,
  and the result goes down only when both do.
\<close>

definition intersection :: "storage \<Rightarrow> 'a list \<Rightarrow> storage \<Rightarrow> 'a list \<Rightarrow> 'a list" where
  "intersection sx xs sy ys =
     (if sx = RangeDown \<and> sy = RangeUp
      then rev (filter (\<lambda>x. x \<in> set ys) (unique xs))
      else filter (\<lambda>x. x \<in> set ys) (unique xs))"

text \<open>
  \<open>df.loc[ids]\<close> with a list of labels: for every label in turn, the rows carrying it;
  KeyError when a label is not in the index.
\<close>

definition loc :: "'v keyed \<Rightarrow> 'v cell list \<Rightarrow> error + 'v keyed" where
  "loc df ids =
     (if \<forall>k\<in>set ids. k \<in> fst ` set (entries df)
      then Inr \<lparr>index_name = index_name df, kcolumns = kcolumns df,
                entries = concat (map (\<lambda>k. filter (\<lambda>e. fst e = k) (entries df)) ids)\<rparr>
      else Inl KeyError)"

text \<open>
  \<open>left.join(right, lsuffix=..., rsuffix=...)\<close>: a left join on the index. Every left
  row is paired with each right row of the same label (with missing cells when there is
  none); a column label that both sides carry gets the side's suffix.
\<close>

definition join :: "'v keyed \<Rightarrow> 'v keyed \<Rightarrow> string \<Rightarrow> string \<Rightarrow> 'v keyed" where
  "join l r lsuffix rsuffix =
     \<lparr>index_name = index_name l,
      kcolumns = map (\<lambda>c. if c \<in> set (kcolumns r) then c @ lsuffix else c) (kcolumns l)
               @ map (\<lambda>c. if c \<in> set (kcolumns l) then c @ rsuffix else c) (kcolumns r),
      entries = concat (map (\<lambda>(k, vs).
                   case filter (\<lambda>e. fst e = k) (entries r) of
                     [] \<Rightarrow> [(k, vs @ replicate (length (kcolumns r)) Null)]
                   | ms \<Rightarrow> map (\<lambda>e. (k, vs @ snd e)) ms) (entries l))\<rparr>"

text \<open>
  Element-wise subtraction: a missing operand gives a missing result, two numbers their
  difference, and a string operand raises TypeError.
\<close>

fun sub_cell :: "('v::{minus,zero}) cell \<Rightarrow> 'v cell \<Rightarrow> error + 'v cell" where
  "sub_cell Null _ = Inr Null"
| "sub_cell _ Null = Inr Null"
| "sub_cell (Num a) (Num b) = Inr (Num (a - b))"
| "sub_cell _ _ = Inl TypeError"

fun sequence :: "(error + 'a) list \<Rightarrow> error + 'a list" where
  "sequence [] = Inr []"
| "sequence (Inl e # _) = Inl e"
| "sequence (Inr x # ms) = (case sequence ms of Inl e \<Rightarrow> Inl e | Inr xs \<Rightarrow> Inr (x # xs))"

text \<open>\<open>df[a] - df[b]\<close>: both columns share the frame's index, so rows are subtracted in place.\<close>

definition sub_columns :: "('v::{minus,zero}) keyed \<Rightarrow> string \<Rightarrow> string \<Rightarrow> error + 'v cell list" where
  "sub_columns df a b =
     (if a \<notin> set (kcolumns df) \<or> b \<notin> set (kcolumns df) then Inl KeyError
      else sequence (map (\<lambda>e. sub_cell (getcol (kcolumns df) a (snd e))
                                         (getcol (kcolumns df) b (snd e)))
                         (entries df)))"

text \<open>\<open>df[c] = values\<close> for a label \<open>c\<close> that is not yet a column: the column is appended.\<close>

definition add_column :: "'v keyed \<Rightarrow> string \<Rightarrow> 'v cell list \<Rightarrow> 'v keyed" where
  "add_column df c vals =
     \<lparr>index_name = index_name df, kcolumns = kcolumns df @ [c],
      entries = map (\<lambda>(e, v). (fst e, snd e @ [v])) (zip (entries df) vals)\<rparr>"

text \<open>\<open>x != 0\<close> on a cell: NaN and strings differ from zero.\<close>

fun ne_zero :: "('v::{minus,zero}) cell \<Rightarrow> bool" where
  "ne_zero (Num d) = (d \<noteq> 0)"
| "ne_zero _ = True"

text \<open>\<open>df[df[c] != 0]\<close>: the rows whose cell under \<open>c\<close> differs from zero, in order.\<close>

definition where_ne_zero :: "('v::{minus,zero}) keyed \<Rightarrow> string \<Rightarrow> 'v keyed" where
  "where_ne_zero df c =
     \<lparr>index_name = index_name df, kcolumns = kcolumns df,
      entries = filter (\<lambda>e. ne_zero (getcol (kcolumns df) c (snd e))) (entries df)\<rparr>"

text \<open>
  \<open>df.reset_index()\<close>: the index returns as the first column; ValueError when a column
  already has its name.
\<close>

definition reset_index :: "'v keyed \<Rightarrow> error + 'v frame" where
  "reset_index df =
     (if index_name df \<in> set (kcolumns df) then Inl ValueError
      else Inr \<lparr>columns = index_name df # kcolumns df,
                rows = map (\<lambda>e. fst e # snd e) (entries df)\<rparr>)"

text \<open>\<open>df[c] = scalar\<close> for a new label \<open>c\<close>: a constant column is appended.\<close>

definition add_constant :: "'v frame \<Rightarrow> string \<Rightarrow> 'v cell \<Rightarrow> 'v frame" where
  "add_constant df c v = \<lparr>columns = columns df @ [c], rows = map (\<lambda>r. r @ [v]) (rows df)\<rparr>"

text \<open>
  \<open>pd.concat(frames, ignore_index=True)\<close>: the columns are the union of the frames'
  columns in order of first appearance, the rows follow frame by frame, each realigned
  to the union with missing cells; ValueError on an empty list of frames.
\<close>

definition concat_frames :: "'v frame list \<Rightarrow> error + 'v frame" where
  "concat_frames fs =
     (if fs = [] then Inl ValueError
      else Inr \<lparr>columns = unique (concat (map columns fs)),
                rows = concat (map (\<lambda>f. map (\<lambda>r. map (\<lambda>c. getcol (columns f) c r)
                                                     (unique (concat (map columns fs))))
                                          (rows f)) fs)\<rparr>)"

section \<open>The reconciliation engine\<close>

definition CHUNK_SIZE :: nat where
  "CHUNK_SIZE = 1000000"

text \<open>The body of the batch loop of \<open>reconcile_metric\<close> (lines 45 to 52).\<close>

definition reconcile_chunk ::
  "('v::{minus,zero}) keyed \<Rightarrow> 'v keyed \<Rightarrow> string \<Rightarrow> 'v cell list \<Rightarrow> error + 'v frame" where
  "reconcile_chunk pre_df post_df metric chunk_ids =
     ebind (loc pre_df chunk_ids) (\<lambda>pre_chunk.
     ebind (loc post_df chunk_ids) (\<lambda>post_chunk.
     let merged = join pre_chunk post_chunk ''_pre'' ''_post'' in
     ebind (sub_columns merged (metric @ ''_pre'') (metric @ ''_post'')) (\<lambda>d.
     let merged = add_column merged ''diff'' d in
     ebind (reset_index (where_ne_zero merged ''diff'')) (\<lambda>mismatches.
     Inr (add_constant mismatches ''Metric'' (Str metric))))))"

text \<open>
  The loop \<open>for i in range(0, len(common_ids), n)\<close>, with \<open>result\<close> the list of batch
  results so far. \<open>range\<close> raises ValueError on a zero step.
\<close>

function reconcile_loop ::
  "nat \<Rightarrow> ('v::{minus,zero}) keyed \<Rightarrow> 'v keyed \<Rightarrow> string \<Rightarrow> 'v cell list \<Rightarrow> nat
     \<Rightarrow> 'v frame list \<Rightarrow> error + 'v frame list" where
  "reconcile_loop n pre_df post_df metric common_ids i result =
     (if n = 0 then Inl ValueError
      else if i < length common_ids then
        (case reconcile_chunk pre_df post_df metric (take n (drop i common_ids)) of
           Inl e \<Rightarrow> Inl e
         | Inr mismatches \<Rightarrow>
             reconcile_loop n pre_df post_df metric common_ids (i + n) (result @ [mismatches]))
      else Inr result)"
  by pat_completeness auto
termination
  by (relation "measure (\<lambda>(n, pre_df, post_df, metric, common_ids, i, result). length common_ids - i)")
     auto

declare reconcile_loop.simps [simp del]

text \<open>
  \<open>reconcile_metric\<close> with the batch size as a parameter. The result is the returned
  table, or the exception raised, together with the diagnostics written by \<open>log_msg\<close>
  (without their time stamps).

  How \<open>set_index\<close> stores the index it makes is the library's choice and differs
  between its versions, so it is a parameter: \<open>index_storage column labels\<close> is the
  storage of the index with these \<open>labels\<close>, made from a key column that was read as
  \<open>column\<close> (selection and \<open>dropna\<close> keep the type the column was read with).
\<close>

definition reconcile_metric_chunked ::
  "('v cell list \<Rightarrow> 'v cell list \<Rightarrow> storage) \<Rightarrow> nat \<Rightarrow> ('v::{minus,zero}) frame \<Rightarrow> 'v frame
     \<Rightarrow> string \<Rightarrow> (error + 'v frame) \<times> string list" where
  "reconcile_metric_chunked index_storage n pre_df post_df metric =
     (if metric \<notin> set (columns pre_df) \<or> metric \<notin> set (columns post_df)
      then (Inr empty_frame, [''Metric '' @ metric @ '' not found in one of the files''])
      else
       (ebind (select pre_df [''PlayerID'', metric]) (\<lambda>pre_sel.
        ebind (select post_df [''PlayerID'', metric]) (\<lambda>post_sel.
        ebind (set_index (dropna pre_sel) ''PlayerID'') (\<lambda>pre_ix.
        ebind (set_index (dropna post_sel) ''PlayerID'') (\<lambda>post_ix.
        let pre_ids = map fst (entries pre_ix);
            post_ids = map fst (entries post_ix);
            common_ids = intersection
                (index_storage (cells_of pre_df ''PlayerID'') pre_ids) pre_ids
                (index_storage (cells_of post_df ''PlayerID'') post_ids) post_ids in
        ebind (reconcile_loop n pre_ix post_ix metric common_ids 0 []) (\<lambda>result.
        if result \<noteq> [] then concat_frames result else Inr empty_frame))))), []))"

definition reconcile_metric ::
  "('v cell list \<Rightarrow> 'v cell list \<Rightarrow> storage) \<Rightarrow> ('v::{minus,zero}) frame \<Rightarrow> 'v frame
     \<Rightarrow> string \<Rightarrow> (error + 'v frame) \<times> string list" where
  "reconcile_metric index_storage = reconcile_metric_chunked index_storage CHUNK_SIZE"

text \<open>
  \<open>reconcile_login\<close> (lines 58 to 62): the keys of \<open>pre_ids\<close> that are not a label of
  the post table once its rows without a key or without a date are dropped.
\<close>

definition reconcile_login :: "'v cell list \<Rightarrow> 'v frame \<Rightarrow> error + 'v frame" where
  "reconcile_login pre_ids post_df =
     ebind (select post_df [''PlayerID'', ''LastLoginDate'']) (\<lambda>post_sel.
     ebind (set_index (dropna post_sel) ''PlayerID'') (\<lambda>post_ix.
     let missing = filter (\<lambda>pid. pid \<notin> fst ` set (entries post_ix)) pre_ids in
     Inr \<lparr>columns = [''PlayerID'', ''Metric'', ''Status''],
          rows = map (\<lambda>pid. [pid, Str ''LastLoginDate'', Str ''Missing Post'']) missing\<rparr>))"

section \<open>The loader\<close>

text \<open>\<open>os.path.basename\<close>: what follows the last slash.\<close>

definition basename :: "string \<Rightarrow> string" where
  "basename path = rev (takeWhile (\<lambda>c. c \<noteq> CHR ''/'') (rev path))"

text \<open>\<open>sep.join(items)\<close>.\<close>

fun join_str :: "string \<Rightarrow> string list \<Rightarrow> string" where
  "join_str sep [] = []"
| "join_str sep [x] = x"
| "join_str sep (x # y # ys) = x @ sep @ join_str sep (y # ys)"

text \<open>
  \<open>validate_file\<close> (lines 17 to 28). The parser is a parameter: \<open>read_csv path nrows\<close>
  is the table read from \<open>path\<close> (its first \<open>nrows\<close> rows when a bound is given), or the
  text of the exception it raises. The result is the loaded table, or \<open>None\<close>, with the
  diagnostics written.
\<close>

definition validate_file ::
  "(string \<Rightarrow> nat option \<Rightarrow> string + 'v frame) \<Rightarrow> string \<Rightarrow> string list option
     \<Rightarrow> 'v frame option \<times> string list" where
  "validate_file read_csv path required_cols =
     (case read_csv path (Some 100) of
        Inl e \<Rightarrow> (None, [''Validation failed: '' @ e])
      | Inr df \<Rightarrow>
          let seen = [''Columns in '' @ basename path @ '': '' @ join_str '', '' (columns df)];
              missing = (case required_cols of
                           None \<Rightarrow> []
                         | Some cols \<Rightarrow> filter (\<lambda>col. col \<notin> set (columns df)) cols);
              warned = (if missing \<noteq> []
                        then [''Warning: Missing columns in '' @ basename path @ '': ''
                                @ join_str '', '' missing]
                        else [])
          in (case read_csv path None of
                Inl e \<Rightarrow> (None, seen @ warned @ [''Validation failed: '' @ e])
              | Inr full \<Rightarrow> (Some full, seen @ warned)))"

section \<open>The run\<close>

text \<open>
  What the form holds when the button is pressed: the two names and which of the five
  files were uploaded.
\<close>

record form =
  preparer :: string
  reviewer :: string
  pre_file :: bool
  pre_login_file :: bool
  post_int_file :: bool
  post_sub_file :: bool
  post_login_file :: bool

text \<open>
  What the page shows at the end of a run: an error message, the exception report (with
  its summary and download), or the message that nothing differs.
\<close>

datatype 'v outcome = Error string | Exceptions "'v frame" | NoMismatches

definition temp_path :: "string \<Rightarrow> string \<Rightarrow> string" where
  "temp_path label ts = ''temp_'' @ label @ ''_'' @ ts @ ''.csv''"

text \<open>\<open>df[c].tolist()\<close>.\<close>

definition column_list :: "'v frame \<Rightarrow> string \<Rightarrow> error + 'v cell list" where
  "column_list df c =
     (if c \<in> set (columns df) then Inr (map (getcol (columns df) c) (rows df)) else Inl KeyError)"

text \<open>\<open>df.empty\<close>.\<close>

definition is_empty :: "'v frame \<Rightarrow> bool" where
  "is_empty df = (columns df = [] \<or> rows df = [])"

text \<open>
  \<open>results.append(call)\<close>, with the results and diagnostics so far: once a call has
  raised, nothing after it runs.
\<close>

definition append_result ::
  "(error + 'v frame list) \<times> string list \<Rightarrow> (error + 'v frame) \<times> string list
     \<Rightarrow> (error + 'v frame list) \<times> string list" where
  "append_result acc call =
     (case fst acc of
        Inl e \<Rightarrow> acc
      | Inr results \<Rightarrow>
          (case fst call of
             Inl e \<Rightarrow> (Inl e, snd acc @ snd call)
           | Inr df \<Rightarrow> (Inr (results @ [df]), snd acc @ snd call)))"

text \<open>
  The reconciliations of a run and the choice of what to show (lines 113 to 153), from
  the loaded tables, the pre table being there. \<open>logged\<close> are the diagnostics written
  so far.
\<close>

definition reconcile_all ::
  "('v cell list \<Rightarrow> 'v cell list \<Rightarrow> storage) \<Rightarrow> ('v::{minus,zero}) frame \<Rightarrow> 'v frame option
     \<Rightarrow> 'v frame option \<Rightarrow> 'v frame option \<Rightarrow> 'v frame option \<Rightarrow> string list
     \<Rightarrow> (error + 'v outcome) \<times> string list" where
  "reconcile_all index_storage pre_df pre_login_df int_df sub_df login_df logged =
     (let r0 = (Inr [], logged);
          r1 = (case int_df of
                  Some df \<Rightarrow> append_result r0
                             (reconcile_metric index_storage pre_df df ''InteractiveBalance'')
                | None \<Rightarrow> r0);
          r2 = (case sub_df of
                  Some df \<Rightarrow> append_result r1
                             (reconcile_metric index_storage pre_df df ''SubscriptionBalance'')
                | None \<Rightarrow> r1);
          r3 = (case login_df of
                  None \<Rightarrow> r2
                | Some df \<Rightarrow>
                    (case pre_login_df of
                       Some pre_login \<Rightarrow>
                         append_result r2
                           (reconcile_metric index_storage pre_login df ''LastLoginDate'')
                     | None \<Rightarrow>
                         append_result r2
                           (ebind (column_list pre_df ''PlayerID'')
                              (\<lambda>pre_ids. reconcile_login pre_ids df), [])))
      in (case fst r3 of
            Inl e \<Rightarrow> (Inl e, snd r3)
          | Inr results \<Rightarrow>
              (case (if results \<noteq> [] then concat_frames results else Inr empty_frame) of
                 Inl e \<Rightarrow> (Inl e, snd r3)
               | Inr all_ex \<Rightarrow>
                   (Inr (if \<not> is_empty all_ex then Exceptions all_ex else NoMismatches),
                    snd r3))))"

text \<open>
  The handler of the button (lines 86 to 153), from the check of the form to the choice
  of what to show. \<open>ts\<close> is the time stamp in the names of the temporary files, which
  \<open>read_csv\<close> reads back; \<open>index_storage\<close> is passed on to \<open>reconcile_metric\<close>. The
  result is what the page shows, or the exception that
  ends the run, with the diagnostics written.
\<close>

definition run_reconciliation ::
  "('v cell list \<Rightarrow> 'v cell list \<Rightarrow> storage)
     \<Rightarrow> (string \<Rightarrow> nat option \<Rightarrow> string + ('v::{minus,zero}) frame) \<Rightarrow> string \<Rightarrow> form
     \<Rightarrow> (error + 'v outcome) \<times> string list" where
  "run_reconciliation index_storage read_csv ts f =
     (if \<not> pre_file f then (Inr (Error ''Please upload the Pre-Migration file.''), [])
      else if preparer f = [] \<or> reviewer f = []
      then (Inr (Error ''Please enter both preparer and reviewer names.''), [])
      else
        let pre = validate_file read_csv (temp_path ''pre'' ts) None;
            pre_login = (if pre_login_file f
                         then validate_file read_csv (temp_path ''prelogin'' ts) None
                         else (None, []));
            inter = (if post_int_file f
                     then validate_file read_csv (temp_path ''int'' ts) None else (None, []));
            sub = (if post_sub_file f
                   then validate_file read_csv (temp_path ''sub'' ts) None else (None, []));
            login = (if post_login_file f
                     then validate_file read_csv (temp_path ''login'' ts) None else (None, []));
            logged = snd pre @ snd pre_login @ snd inter @ snd sub @ snd login
        in (case fst pre of
              None \<Rightarrow>
                (Inr (Error ''Pre file validation failed. See logs/internal_errors.txt.''), logged)
            | Some pre_df \<Rightarrow>
                reconcile_all index_storage pre_df (fst pre_login) (fst inter) (fst sub)
                  (fst login) logged))"

section \<open>The tables as objects\<close>

text \<open>
  To say which tables a call changes, the tables live in a store: a list of objects,
  addressed by position. An object is a frame with the default index or an indexed
  frame; \<open>set_index(..., inplace=True)\<close> turns the first into the second at the same
  address, while column selection and \<open>dropna\<close> allocate a new object.
\<close>

datatype 'v obj = Frame "'v frame" | Keyed "'v keyed"

definition alloc :: "'v obj list \<Rightarrow> 'v obj \<Rightarrow> nat \<times> 'v obj list" where
  "alloc s ob = (length s, s @ [ob])"

fun obj_columns :: "'v obj \<Rightarrow> string list" where
  "obj_columns (Frame df) = columns df"
| "obj_columns (Keyed df) = kcolumns df"

fun obj_cells :: "'v obj \<Rightarrow> string \<Rightarrow> 'v cell list" where
  "obj_cells (Frame df) c = cells_of df c"
| "obj_cells (Keyed df) c = map (\<lambda>e. getcol (kcolumns df) c (snd e)) (entries df)"

fun obj_select :: "'v obj \<Rightarrow> string list \<Rightarrow> error + 'v obj" where
  "obj_select (Frame df) cs = (case select df cs of Inl e \<Rightarrow> Inl e | Inr sel \<Rightarrow> Inr (Frame sel))"
| "obj_select (Keyed df) cs =
     (if \<forall>c\<in>set cs. c \<in> set (kcolumns df)
      then Inr (Keyed \<lparr>index_name = index_name df, kcolumns = cs,
                      entries = map (\<lambda>e. (fst e, map (\<lambda>c. getcol (kcolumns df) c (snd e)) cs))
                                    (entries df)\<rparr>)
      else Inl KeyError)"

fun obj_dropna :: "'v obj \<Rightarrow> 'v obj" where
  "obj_dropna (Frame df) = Frame (dropna df)"
| "obj_dropna (Keyed df) =
     Keyed \<lparr>index_name = index_name df, kcolumns = kcolumns df,
            entries = filter (\<lambda>e. \<forall>c\<in>set (kcolumns df). getcol (kcolumns df) c (snd e) \<noteq> Null)
                             (entries df)\<rparr>"

fun obj_set_index :: "'v obj \<Rightarrow> string \<Rightarrow> error + 'v obj" where
  "obj_set_index (Frame df) key =
     (case set_index df key of Inl e \<Rightarrow> Inl e | Inr ix \<Rightarrow> Inr (Keyed ix))"
| "obj_set_index (Keyed df) key =
     (if key \<notin> set (kcolumns df) then Inl KeyError
      else if 1 < count_list (kcolumns df) key then Inl ValueError
      else Inr (Keyed \<lparr>index_name = key,
                kcolumns = filter (\<lambda>c. c \<noteq> key) (kcolumns df),
                entries = map (\<lambda>e. (getcol (kcolumns df) key (snd e),
                                   map (\<lambda>c. getcol (kcolumns df) c (snd e))
                                       (filter (\<lambda>c. c \<noteq> key) (kcolumns df))))
                              (entries df)\<rparr>))"

text \<open>\<open>df.set_index(key, inplace=True)\<close> on the object at address \<open>a\<close>.\<close>

definition set_index_inplace :: "'v obj list \<Rightarrow> nat \<Rightarrow> string \<Rightarrow> error + 'v obj list" where
  "set_index_inplace s a key =
     (case obj_set_index (s ! a) key of Inl e \<Rightarrow> Inl e | Inr ob \<Rightarrow> Inr (s[a := ob]))"

text \<open>
  Lines 41 to 55 on two objects. Both are indexed when the engine reaches line 41; the
  loop works on objects of its own making (\<open>loc\<close>, \<open>join\<close>, the row selection and
  \<open>reset_index\<close> each return a new one), which no other name refers to.
\<close>

fun compare_indexed ::
  "('v cell list \<Rightarrow> storage) \<Rightarrow> ('v cell list \<Rightarrow> storage) \<Rightarrow> nat
     \<Rightarrow> ('v::{minus,zero}) obj \<Rightarrow> 'v obj \<Rightarrow> string \<Rightarrow> error + 'v frame" where
  "compare_indexed pre_storage post_storage n (Keyed pre_df) (Keyed post_df) metric =
     (let pre_ids = map fst (entries pre_df);
          post_ids = map fst (entries post_df);
          common_ids = intersection (pre_storage pre_ids) pre_ids (post_storage post_ids) post_ids in
      ebind (reconcile_loop n pre_df post_df metric common_ids 0 []) (\<lambda>result.
      if result \<noteq> [] then concat_frames result else Inr empty_frame))"
| "compare_indexed pre_storage post_storage n _ _ metric = Inl TypeError"

text \<open>
  \<open>reconcile_metric\<close> on the store: \<open>pre_ref\<close> and \<open>post_ref\<close> are the addresses of the
  caller's tables. Besides the result and the diagnostics it returns the store after the
  call.
\<close>

definition reconcile_metric_st ::
  "('v cell list \<Rightarrow> 'v cell list \<Rightarrow> storage) \<Rightarrow> ('v::{minus,zero}) obj list \<Rightarrow> nat \<Rightarrow> nat
     \<Rightarrow> string \<Rightarrow> ((error + 'v frame) \<times> string list) \<times> 'v obj list" where
  "reconcile_metric_st index_storage s pre_ref post_ref metric =
     (if metric \<notin> set (obj_columns (s ! pre_ref)) \<or> metric \<notin> set (obj_columns (s ! post_ref))
      then ((Inr empty_frame, [''Metric '' @ metric @ '' not found in one of the files'']), s)
      else
       (case obj_select (s ! pre_ref) [''PlayerID'', metric] of
          Inl e \<Rightarrow> ((Inl e, []), s)
        | Inr pre_sel \<Rightarrow>
       let (a1, s1) = alloc s pre_sel;
           (pre_df, s2) = alloc s1 (obj_dropna (s1 ! a1)) in
       (case obj_select (s2 ! post_ref) [''PlayerID'', metric] of
          Inl e \<Rightarrow> ((Inl e, []), s2)
        | Inr post_sel \<Rightarrow>
       let (a2, s3) = alloc s2 post_sel;
           (post_df, s4) = alloc s3 (obj_dropna (s3 ! a2)) in
       (case set_index_inplace s4 pre_df ''PlayerID'' of
          Inl e \<Rightarrow> ((Inl e, []), s4)
        | Inr s5 \<Rightarrow>
       (case set_index_inplace s5 post_df ''PlayerID'' of
          Inl e \<Rightarrow> ((Inl e, []), s5)
        | Inr s6 \<Rightarrow>
            ((compare_indexed (index_storage (obj_cells (s ! pre_ref) ''PlayerID''))
                (index_storage (obj_cells (s ! post_ref) ''PlayerID''))
                CHUNK_SIZE (s6 ! pre_df) (s6 ! post_df) metric, []), s6))))))"

text \<open>\<open>reconcile_login\<close> on the store.\<close>

definition reconcile_login_st ::
  "'v obj list \<Rightarrow> 'v cell list \<Rightarrow> nat \<Rightarrow> (error + 'v frame) \<times> 'v obj list" where
  "reconcile_login_st s pre_ids post_ref =
     (case obj_select (s ! post_ref) [''PlayerID'', ''LastLoginDate''] of
        Inl e \<Rightarrow> (Inl e, s)
      | Inr post_sel \<Rightarrow>
     let (a1, s1) = alloc s post_sel;
         (post_df, s2) = alloc s1 (obj_dropna (s1 ! a1)) in
     (case set_index_inplace s2 post_df ''PlayerID'' of
        Inl e \<Rightarrow> (Inl e, s2)
      | Inr s3 \<Rightarrow>
          (case s3 ! post_df of
             Keyed post_ix \<Rightarrow>
               (let missing = filter (\<lambda>pid. pid \<notin> fst ` set (entries post_ix)) pre_ids in
                (Inr \<lparr>columns = [''PlayerID'', ''Metric'', ''Status''],
                      rows = map (\<lambda>pid. [pid, Str ''LastLoginDate'', Str ''Missing Post'']) missing\<rparr>,
                 s3))
           | Frame df \<Rightarrow> (Inl TypeError, s3))))"

section \<open>Notions used to state the properties\<close>

text \<open>
  The key and the value of a row of a table: its cells under \<open>PlayerID\<close> and under the
  metric.
\<close>

definition key_of :: "'v frame \<Rightarrow> 'v cell list \<Rightarrow> 'v cell" where
  "key_of df r = getcol (columns df) ''PlayerID'' r"

definition value_of :: "'v frame \<Rightarrow> string \<Rightarrow> 'v cell list \<Rightarrow> 'v cell" where
  "value_of df metric r = getcol (columns df) metric r"

text \<open>
  The rows that survive the projection to the key and the metric and \<open>dropna\<close>, as
  pairs of key and value, in table order; and the labels of the re-indexed table.
\<close>

definition keyvals :: "'v frame \<Rightarrow> string \<Rightarrow> ('v cell \<times> 'v cell) list" where
  "keyvals df metric =
     map (\<lambda>r. (key_of df r, value_of df metric r))
         (filter (\<lambda>r. key_of df r \<noteq> Null \<and> value_of df metric r \<noteq> Null) (rows df))"

definition index_keys :: "'v frame \<Rightarrow> string \<Rightarrow> 'v cell list" where
  "index_keys df metric = map fst (keyvals df metric)"

text \<open>
  The table that lines 36 to 39 build from such pairs: indexed by \<open>PlayerID\<close>, with the
  metric as its only column.
\<close>

definition keyed_of :: "string \<Rightarrow> ('v cell \<times> 'v cell) list \<Rightarrow> 'v keyed" where
  "keyed_of metric kvs =
     \<lparr>index_name = ''PlayerID'', kcolumns = [metric], entries = map (\<lambda>p. (fst p, [snd p])) kvs\<rparr>"

text \<open>
  How the index of a table is stored after lines 36 to 39, and \<open>common_ids\<close> of line 41,
  from the two input tables.
\<close>

definition index_kind ::
  "('v cell list \<Rightarrow> 'v cell list \<Rightarrow> storage) \<Rightarrow> 'v frame \<Rightarrow> string \<Rightarrow> storage" where
  "index_kind index_storage df metric
     = index_storage (cells_of df ''PlayerID'') (index_keys df metric)"

definition common_ids ::
  "('v cell list \<Rightarrow> 'v cell list \<Rightarrow> storage) \<Rightarrow> 'v frame \<Rightarrow> 'v frame \<Rightarrow> string \<Rightarrow> 'v cell list" where
  "common_ids index_storage pre_df post_df metric
     = intersection (index_kind index_storage pre_df metric) (index_keys pre_df metric)
         (index_kind index_storage post_df metric) (index_keys post_df metric)"

text \<open>
  Two choices of the library. Before version 3, \<open>set_index\<close> stores every index as its
  labels. From version 3 on it stores a range when the key column was read as integers
  (no cell missing and none a text), there are at least two labels, and the labels step
  evenly by a step other than zero.
\<close>

definition plain_storage :: "'v cell list \<Rightarrow> 'v cell list \<Rightarrow> storage" where
  "plain_storage column labels = Labels"

fun is_num :: "'v cell \<Rightarrow> bool" where
  "is_num (Num i) = True"
| "is_num _ = False"

fun num_of :: "int cell \<Rightarrow> int" where
  "num_of (Num i) = i"
| "num_of _ = 0"

definition range_storage :: "int cell list \<Rightarrow> int cell list \<Rightarrow> storage" where
  "range_storage column labels =
     (case map num_of labels of
        a # b # rest \<Rightarrow>
          (if list_all is_num column \<and> b \<noteq> a \<and>
              a # b # rest = map (\<lambda>i. a + int i * (b - a)) [0..<length labels]
           then (if a < b then RangeUp else RangeDown)
           else Labels)
      | _ \<Rightarrow> Labels)"

text \<open>
  A metric column is numeric when none of its cells is a string; missing cells are
  allowed. The keys of a table are unique when no key that is present repeats.
\<close>

fun is_text :: "'v cell \<Rightarrow> bool" where
  "is_text (Str s) = True"
| "is_text _ = False"

definition numeric_column :: "'v frame \<Rightarrow> string \<Rightarrow> bool" where
  "numeric_column df metric = (\<forall>r\<in>set (rows df). \<not> is_text (value_of df metric r))"

definition unique_keys :: "'v frame \<Rightarrow> bool" where
  "unique_keys df = distinct (filter (\<lambda>k. k \<noteq> Null) (map (key_of df) (rows df)))"

text \<open>
  Two tables can be compared on a metric when both carry the key column and the metric,
  the metric is not the key column, and the metric is numeric in both.
\<close>

definition comparable :: "'v frame \<Rightarrow> 'v frame \<Rightarrow> string \<Rightarrow> bool" where
  "comparable pre_df post_df metric =
     (''PlayerID'' \<in> set (columns pre_df) \<and> ''PlayerID'' \<in> set (columns post_df) \<and>
      metric \<in> set (columns pre_df) \<and> metric \<in> set (columns post_df) \<and>
      metric \<noteq> ''PlayerID'' \<and>
      numeric_column pre_df metric \<and> numeric_column post_df metric)"

text \<open>
  The joined rows of a list of labels: for every label in turn, every pre value of the
  label paired with every post value of the label.
\<close>

definition pairs_of ::
  "('v cell \<times> 'v cell) list \<Rightarrow> ('v cell \<times> 'v cell) list \<Rightarrow> 'v cell list
     \<Rightarrow> ('v cell \<times> 'v cell \<times> 'v cell) list" where
  "pairs_of P Q ids =
     concat (map (\<lambda>k. concat (map (\<lambda>p. map (\<lambda>q. (k, snd p, snd q)) (filter (\<lambda>q. fst q = k) Q))
                                    (filter (\<lambda>p. fst p = k) P))) ids)"

text \<open>
  The difference of a joined row where the subtraction is defined, and the joined rows
  on which it raises.
\<close>

definition diff_cell :: "('v::{minus,zero}) cell \<Rightarrow> 'v cell \<Rightarrow> 'v cell" where
  "diff_cell a b = (case sub_cell a b of Inr d \<Rightarrow> d | Inl e \<Rightarrow> Null)"

definition clash :: "('v::{minus,zero}) cell \<times> 'v cell \<times> 'v cell \<Rightarrow> bool" where
  "clash t = (sub_cell (fst (snd t)) (snd (snd t)) = Inl TypeError)"

text \<open>
  The header and the rows of a batch result: the joined rows whose difference is not
  zero, with the difference and the metric's name appended.
\<close>

definition out_columns :: "string \<Rightarrow> string list" where
  "out_columns metric = [''PlayerID'', metric @ ''_pre'', metric @ ''_post'', ''diff'', ''Metric'']"

definition out_rows :: "string \<Rightarrow> (('v::{minus,zero}) cell \<times> 'v cell \<times> 'v cell) list \<Rightarrow> 'v cell list list" where
  "out_rows metric ts =
     map (\<lambda>t. [fst t, fst (snd t), snd (snd t), diff_cell (fst (snd t)) (snd (snd t)), Str metric])
         (filter (\<lambda>t. ne_zero (diff_cell (fst (snd t)) (snd (snd t)))) ts)"

definition chunk_frame ::
  "string \<Rightarrow> (('v::{minus,zero}) cell \<times> 'v cell) list \<Rightarrow> ('v cell \<times> 'v cell) list \<Rightarrow> 'v cell list \<Rightarrow> 'v frame" where
  "chunk_frame m P Q ids = \<lparr>columns = out_columns m, rows = out_rows m (pairs_of P Q ids)\<rparr>"

text \<open>
  The slices \<open>common_ids[i:i + n]\<close> that the loop visits.
\<close>

function batches :: "nat \<Rightarrow> 'a list \<Rightarrow> 'a list list" where
  "batches n xs = (if n = 0 \<or> xs = [] then [] else take n xs # batches n (drop n xs))"
  by pat_completeness auto
termination
  by (relation "measure (\<lambda>(n, xs). length xs)") auto

declare batches.simps [simp del]

text \<open>
  The example of the specification: key 1 agrees, key 2 differs by \<open>-50\<close>, key 3 has
  no pre value and no post row.
\<close>

definition example_pre :: "int frame" where
  "example_pre = \<lparr>columns = [''PlayerID'', ''Balance''],
                  rows = [[Num 1, Num 100], [Num 2, Num 200], [Num 3, Null]]\<rparr>"

definition example_post :: "int frame" where
  "example_post = \<lparr>columns = [''PlayerID'', ''Balance''],
                   rows = [[Num 1, Num 100], [Num 2, Num 250]]\<rparr>"

text \<open>The exception table that the specification gives for the example.\<close>

definition example_out :: "int frame" where
  "example_out = \<lparr>columns = [''PlayerID'', ''Balance_pre'', ''Balance_post'', ''diff'', ''Metric''],
                  rows = [[Num 2, Num 200, Num 250, Num (- 50), Str ''Balance'']]\<rparr>"

text \<open>
  A post table and a pre table of last logins, a parser that reads the pre table of the
  example and fails on every other path, a parser that always fails, and a store holding
  the two tables of the example.
\<close>

definition example_login :: "int frame" where
  "example_login = \<lparr>columns = [''PlayerID'', ''LastLoginDate''],
                    rows = [[Num 1, Str ''2024-01-05''], [Num 3, Str ''2024-02-11'']]\<rparr>"

definition example_pre_login :: "int frame" where
  "example_pre_login = \<lparr>columns = [''PlayerID'', ''LastLoginDate''],
                        rows = [[Num 1, Str ''2024-01-02'']]\<rparr>"

definition example_read :: "string \<Rightarrow> nat option \<Rightarrow> string + int frame" where
  "example_read path nrows =
     (if path = ''temp_pre_20240101_120000.csv'' then Inr example_pre
      else Inl ''No columns to parse from file'')"

definition example_fail :: "string \<Rightarrow> nat option \<Rightarrow> string + int frame" where
  "example_fail path nrows = Inl ''No columns to parse from file''"

definition example_store :: "int obj list" where
  "example_store = [Frame example_pre, Frame example_post]"

text \<open>
  Two tables with the same keys, the pre table listing them downwards and the post
  table upwards, every balance differing; and the table returned for them when the
  indexes are stored as ranges.
\<close>

definition example_down :: "int frame" where
  "example_down = \<lparr>columns = [''PlayerID'', ''Balance''],
                   rows = [[Num 3, Num 30], [Num 2, Num 20], [Num 1, Num 10]]\<rparr>"

definition example_up :: "int frame" where
  "example_up = \<lparr>columns = [''PlayerID'', ''Balance''],
                 rows = [[Num 1, Num 11], [Num 2, Num 22], [Num 3, Num 33]]\<rparr>"

definition example_up_out :: "int frame" where
  "example_up_out = \<lparr>columns = [''PlayerID'', ''Balance_pre'', ''Balance_post'', ''diff'', ''Metric''],
                     rows = [[Num 1, Num 10, Num 11, Num (- 1), Str ''Balance''],
                             [Num 2, Num 20, Num 22, Num (- 2), Str ''Balance''],
                             [Num 3, Num 30, Num 33, Num (- 3), Str ''Balance'']]\<rparr>"

text \<open>
  The run in the words of the specification. A source is loaded when its file was
  uploaded and its validation returns a table. The calls that a run makes, in order, from
  the loaded tables: the interactive balance when its post table is loaded, the
  subscription balance when its post table is loaded and, when the post login table is
  loaded, the comparison of the last logins with a loaded pre-login table, or the
  presence check on the keys of the pre table without one. The report of a list of
  calls: the exception of the first call that raises, or else the tables of all calls
  put together, shown as exceptions unless empty.
\<close>

definition loaded ::
  "(string \<Rightarrow> nat option \<Rightarrow> string + 'v frame) \<Rightarrow> string \<Rightarrow> string \<Rightarrow> bool \<Rightarrow> 'v frame option" where
  "loaded read_csv ts label uploaded =
     (if uploaded then fst (validate_file read_csv (temp_path label ts) None) else None)"

definition enabled_calls ::
  "('v cell list \<Rightarrow> 'v cell list \<Rightarrow> storage) \<Rightarrow> ('v::{minus,zero}) frame \<Rightarrow> 'v frame option
     \<Rightarrow> 'v frame option \<Rightarrow> 'v frame option \<Rightarrow> 'v frame option \<Rightarrow> (error + 'v frame) list" where
  "enabled_calls index_storage pre_df pre_login_df int_df sub_df login_df =
     (case int_df of
        Some df \<Rightarrow> [fst (reconcile_metric index_storage pre_df df ''InteractiveBalance'')]
      | None \<Rightarrow> [])
     @ (case sub_df of
          Some df \<Rightarrow> [fst (reconcile_metric index_storage pre_df df ''SubscriptionBalance'')]
        | None \<Rightarrow> [])
     @ (case login_df of
          None \<Rightarrow> []
        | Some df \<Rightarrow>
            (case pre_login_df of
               Some pre_login \<Rightarrow>
                 [fst (reconcile_metric index_storage pre_login df ''LastLoginDate'')]
             | None \<Rightarrow>
                 [ebind (column_list pre_df ''PlayerID'') (\<lambda>pre_ids. reconcile_login pre_ids df)]))"

definition report :: "(error + 'v frame) list \<Rightarrow> error + 'v outcome" where
  "report calls =
     ebind (sequence calls) (\<lambda>results.
     ebind (if results \<noteq> [] then concat_frames results else Inr empty_frame) (\<lambda>all_ex.
     Inr (if is_empty all_ex then NoMismatches else Exceptions all_ex)))"

text \<open>
  A run with all five files uploaded: the pre table and the post tables of the
  subscription balance and of the last logins load, the other two files fail. Key 2
  differs in its subscription balance and has no last login.
\<close>

definition example_balances :: "int frame" where
  "example_balances = \<lparr>columns = [''PlayerID'', ''InteractiveBalance'', ''SubscriptionBalance''],
                       rows = [[Num 1, Num 100, Num 10], [Num 2, Num 200, Num 20],
                               [Num 3, Num 300, Num 30]]\<rparr>"

definition example_sub :: "int frame" where
  "example_sub = \<lparr>columns = [''PlayerID'', ''SubscriptionBalance''],
                  rows = [[Num 1, Num 10], [Num 2, Num 25], [Num 3, Num 30]]\<rparr>"

definition example_reader :: "string \<Rightarrow> nat option \<Rightarrow> string + int frame" where
  "example_reader path nrows =
     (if path = ''temp_pre_20240101_120000.csv'' then Inr example_balances
      else if path = ''temp_sub_20240101_120000.csv'' then Inr example_sub
      else if path = ''temp_login_20240101_120000.csv'' then Inr example_login
      else Inl ''No columns to parse from file'')"

definition example_full_form :: form where
  "example_full_form = \<lparr>preparer = ''Ama'', reviewer = ''Kofi'', pre_file = True,
                         pre_login_file = True, post_int_file = True, post_sub_file = True,
                         post_login_file = True\<rparr>"

definition example_sub_out :: "int frame" where
  "example_sub_out =
     \<lparr>columns = [''PlayerID'', ''SubscriptionBalance_pre'', ''SubscriptionBalance_post'', ''diff'',
                 ''Metric''],
      rows = [[Num 2, Num 20, Num 25, Num (- 5), Str ''SubscriptionBalance'']]\<rparr>"

definition example_login_out :: "int frame" where
  "example_login_out = \<lparr>columns = [''PlayerID'', ''Metric'', ''Status''],
                        rows = [[Num 2, Str ''LastLoginDate'', Str ''Missing Post'']]\<rparr>"

definition example_report :: "int frame" where
  "example_report =
     \<lparr>columns = [''PlayerID'', ''SubscriptionBalance_pre'', ''SubscriptionBalance_post'', ''diff'',
                 ''Metric'', ''Status''],
      rows = [[Num 2, Num 20, Num 25, Num (- 5), Str ''SubscriptionBalance'', Null],
              [Num 2, Null, Null, Null, Str ''LastLoginDate'', Str ''Missing Post'']]\<rparr>"

section \<open>Properties of the reconciliation engine\<close>

subsection \<open>Auxiliary facts\<close>

lemma ebind_simps [simp]: "ebind (Inl e) f = Inl e" "ebind (Inr x) f = f x"
  by (simp_all add: ebind_def)

lemma pre_suffix_neq:
  "m @ ''_pre'' \<noteq> ''PlayerID''" "m @ ''_pre'' \<noteq> ''diff''" "m @ ''_pre'' \<noteq> ''Metric''"
  "m @ ''_post'' \<noteq> ''PlayerID''" "m @ ''_post'' \<noteq> ''diff''" "m @ ''_post'' \<noteq> ''Metric''"
  "m @ ''_pre'' \<noteq> m @ ''_post''"
proof -
  have r: "\<And>s t. rev s \<noteq> rev t \<Longrightarrow> s \<noteq> (t::string)" by auto
  show "m @ ''_pre'' \<noteq> ''PlayerID''" by (rule r) simp
  show "m @ ''_pre'' \<noteq> ''diff''" by (rule r) simp
  show "m @ ''_pre'' \<noteq> ''Metric''" by (rule r) simp
  show "m @ ''_post'' \<noteq> ''PlayerID''" by (rule r) simp
  show "m @ ''_post'' \<noteq> ''diff''" by (rule r) simp
  show "m @ ''_post'' \<noteq> ''Metric''" by (rule r) simp
  show "m @ ''_pre'' \<noteq> m @ ''_post''" by simp
qed

lemma set_unique [simp]: "set (unique xs) = set xs"
  by (induction xs) auto

lemma distinct_unique [simp]: "distinct (unique xs)"
  by (induction xs) auto

lemma unique_distinct: "distinct xs \<Longrightarrow> unique xs = xs"
  by (induction xs) (auto simp: filter_id_conv)

lemma unique_append: "unique (xs @ ys) = unique xs @ filter (\<lambda>y. y \<notin> set xs) (unique ys)"
  by (induction xs) (auto simp: conj_commute)

lemma unique_repeat:
  "distinct xs \<Longrightarrow> cs \<noteq> [] \<Longrightarrow> unique (concat (map (\<lambda>c. xs) cs)) = xs"
proof (induction cs)
  case Nil
  then show ?case by simp
next
  case (Cons c cs)
  have "set (concat (map (\<lambda>c. xs) cs)) \<subseteq> set xs" by auto
  then have "filter (\<lambda>y. y \<notin> set xs) (unique (concat (map (\<lambda>c. xs) cs))) = []"
    by (auto simp: filter_empty_conv)
  with Cons.prems(1) show ?case by (simp add: unique_append unique_distinct)
qed

lemma subseq_unique: "subseq (unique xs) xs"
proof (induction xs)
  case Nil
  then show ?case by simp
next
  case (Cons x xs)
  have "subseq (filter (\<lambda>y. y \<noteq> x) (unique xs)) (unique xs)" by simp
  with Cons have "subseq (filter (\<lambda>y. y \<noteq> x) (unique xs)) xs"
    using subseq_order.trans by blast
  then show ?case by simp
qed

lemma intersection_props:
  "distinct (intersection sx xs sy ys)" "set (intersection sx xs sy ys) = set xs \<inter> set ys"
  by (auto simp: intersection_def)

lemma subseq_intersection:
  "subseq (if sx = RangeDown \<and> sy = RangeUp then rev (intersection sx xs sy ys)
           else intersection sx xs sy ys) xs"
proof -
  have "subseq (filter (\<lambda>x. x \<in> set ys) (unique xs)) xs"
    using subseq_filter_left subseq_unique subseq_order.trans by blast
  then show ?thesis by (simp add: intersection_def)
qed

lemma zip_map_same: "zip (map f xs) (map g xs) = map (\<lambda>x. (f x, g x)) xs"
  by (induction xs) auto

lemma at_most_one:
  "distinct (map f xs) \<Longrightarrow> length (filter (\<lambda>x. f x = k) xs) \<le> 1"
proof (induction xs)
  case Nil
  then show ?case by simp
next
  case (Cons x xs)
  show ?case
  proof (cases "f x = k")
    case True
    from Cons.prems have "f x \<notin> f ` set xs" by simp
    with True have "\<forall>y\<in>set xs. f y \<noteq> k" by blast
    then have "filter (\<lambda>x. f x = k) xs = []"
      by (simp add: filter_empty_conv)
    with True show ?thesis by simp
  next
    case False
    with Cons show ?thesis by simp
  qed
qed

lemma short_distinct: "length xs \<le> 1 \<Longrightarrow> distinct xs"
  by (cases xs) auto

lemma batches_Nil [simp]: "batches n [] = []"
  by (simp add: batches.simps)

lemma batches_step: "0 < n \<Longrightarrow> xs \<noteq> [] \<Longrightarrow> batches n xs = take n xs # batches n (drop n xs)"
  by (subst batches.simps) simp

lemma concat_batches: "0 < n \<Longrightarrow> concat (batches n xs) = xs"
proof (induction "length xs" arbitrary: xs rule: less_induct)
  case less
  show ?case
  proof (cases "xs = []")
    case True
    then show ?thesis by simp
  next
    case False
    with less.prems have "length (drop n xs) < length xs" by simp
    from less.hyps[OF this less.prems] False less.prems show ?thesis
      by (simp add: batches_step)
  qed
qed

lemma batches_empty_iff: "0 < n \<Longrightarrow> batches n xs = [] \<longleftrightarrow> xs = []"
  by (cases "xs = []") (simp_all add: batches_step)

subsection \<open>Lines 36 to 39: projection, dropna, set_index\<close>

lemma pipeline:
  assumes "''PlayerID'' \<in> set (columns df)" "metric \<in> set (columns df)" "metric \<noteq> ''PlayerID''"
  shows "ebind (select df [''PlayerID'', metric]) (\<lambda>sel. set_index (dropna sel) ''PlayerID'')
           = Inr (keyed_of metric (keyvals df metric))"
  using assms
  by (auto simp: select_def dropna_def set_index_def keyed_of_def keyvals_def key_of_def
        value_of_def filter_map o_def)

lemma in_keyvals:
  "(k, a) \<in> set (keyvals df m) \<longleftrightarrow>
     (\<exists>r\<in>set (rows df). key_of df r = k \<and> value_of df m r = a \<and> k \<noteq> Null \<and> a \<noteq> Null)"
  by (auto simp: keyvals_def)

lemma distinct_index_keys:
  assumes "unique_keys df"
  shows "distinct (index_keys df m)"
proof -
  have e: "index_keys df m = map (key_of df)
      (filter (\<lambda>r. value_of df m r \<noteq> Null) (filter (\<lambda>r. key_of df r \<noteq> Null) (rows df)))"
    by (simp add: index_keys_def keyvals_def o_def conj_commute)
  have d: "distinct (map (key_of df) (filter (\<lambda>r. key_of df r \<noteq> Null) (rows df)))"
    using assms by (simp add: unique_keys_def filter_map o_def)
  show ?thesis unfolding e by (rule distinct_map_filter[OF d])
qed

subsection \<open>One batch\<close>

lemma pairs_of_append: "pairs_of P Q (xs @ ys) = pairs_of P Q xs @ pairs_of P Q ys"
  by (simp add: pairs_of_def)

lemma out_rows_append: "out_rows m (xs @ ys) = out_rows m xs @ out_rows m ys"
  by (simp add: out_rows_def)

lemma in_pairs_of:
  "t \<in> set (pairs_of P Q ids) \<longleftrightarrow>
     fst t \<in> set ids \<and> (fst t, fst (snd t)) \<in> set P \<and> (fst t, snd (snd t)) \<in> set Q"
proof (cases t)
  case (fields k a b)
  have "(k, a, b) \<in> set (pairs_of P Q ids) \<longleftrightarrow> k \<in> set ids \<and> (k, a) \<in> set P \<and> (k, b) \<in> set Q"
  proof
    assume "(k, a, b) \<in> set (pairs_of P Q ids)"
    then show "k \<in> set ids \<and> (k, a) \<in> set P \<and> (k, b) \<in> set Q"
      by (auto simp: pairs_of_def)
  next
    assume h: "k \<in> set ids \<and> (k, a) \<in> set P \<and> (k, b) \<in> set Q"
    then have "(k, a, b) \<in> (\<lambda>q. (k, a, snd q)) ` {q \<in> set Q. fst q = k}"
      by force
    with h show "(k, a, b) \<in> set (pairs_of P Q ids)"
      by (force simp: pairs_of_def)
  qed
  with fields show ?thesis by simp
qed

lemma in_pairs_intersection:
  "t \<in> set (pairs_of P Q (intersection sx (map fst P) sy (map fst Q))) \<longleftrightarrow>
     (fst t, fst (snd t)) \<in> set P \<and> (fst t, snd (snd t)) \<in> set Q"
  by (force simp: in_pairs_of intersection_props)

lemma common_ids_props:
  "subseq (if index_kind index_storage pre_df m = RangeDown
              \<and> index_kind index_storage post_df m = RangeUp
           then rev (common_ids index_storage pre_df post_df m)
           else common_ids index_storage pre_df post_df m) (index_keys pre_df m)"
  "distinct (common_ids index_storage pre_df post_df m)"
  "set (common_ids index_storage pre_df post_df m)
     = set (index_keys pre_df m) \<inter> set (index_keys post_df m)"
  unfolding common_ids_def
  by (rule subseq_intersection, rule intersection_props, rule intersection_props)

lemma in_pairs_common:
  "t \<in> set (pairs_of (keyvals pre_df m) (keyvals post_df m)
                (common_ids index_storage pre_df post_df m)) \<longleftrightarrow>
     (fst t, fst (snd t)) \<in> set (keyvals pre_df m) \<and> (fst t, snd (snd t)) \<in> set (keyvals post_df m)"
  by (simp add: common_ids_def index_keys_def in_pairs_intersection)

lemma in_out_rows:
  "r \<in> set (out_rows m ts) \<longleftrightarrow>
     (\<exists>t\<in>set ts. ne_zero (diff_cell (fst (snd t)) (snd (snd t))) \<and>
        r = [fst t, fst (snd t), snd (snd t), diff_cell (fst (snd t)) (snd (snd t)), Str m])"
  by (auto simp: out_rows_def)

lemma loc_keyed_of:
  "set ids \<subseteq> fst ` set P \<Longrightarrow>
     loc (keyed_of m P) ids = Inr (keyed_of m (concat (map (\<lambda>k. filter (\<lambda>p. fst p = k) P) ids)))"
  by (auto simp: loc_def keyed_of_def map_concat filter_map o_def image_image)

lemma filter_loc:
  "distinct ids \<Longrightarrow> k \<in> set ids \<Longrightarrow>
     filter (\<lambda>q. fst q = k) (concat (map (\<lambda>k'. filter (\<lambda>q. fst q = k') Q) ids))
       = filter (\<lambda>q. fst q = k) Q"
proof (induction ids)
  case Nil
  then show ?case by simp
next
  case (Cons a ids)
  have none: "k \<notin> set xs \<Longrightarrow>
      filter (\<lambda>q. fst q = k) (concat (map (\<lambda>k'. filter (\<lambda>q. fst q = k') Q) xs)) = []" for xs
    by (induction xs) (auto simp: filter_empty_conv)
  show ?case
  proof (cases "k = a")
    case True
    with Cons.prems have "k \<notin> set ids" by simp
    from none[OF this] True show ?thesis by simp
  next
    case False
    with Cons have "filter (\<lambda>q. fst q = k) (concat (map (\<lambda>k'. filter (\<lambda>q. fst q = k') Q) ids))
       = filter (\<lambda>q. fst q = k) Q" by simp
    moreover from False have "filter (\<lambda>q. fst q = k) (filter (\<lambda>q. fst q = a) Q) = []"
      by (auto simp: filter_empty_conv)
    ultimately show ?thesis by simp
  qed
qed

lemma join_keyed_of:
  assumes "distinct ids" "set ids \<subseteq> fst ` set Q"
  shows "join (keyed_of m (concat (map (\<lambda>k. filter (\<lambda>p. fst p = k) P) ids)))
              (keyed_of m (concat (map (\<lambda>k. filter (\<lambda>p. fst p = k) Q) ids))) ''_pre'' ''_post''
         = \<lparr>index_name = ''PlayerID'', kcolumns = [m @ ''_pre'', m @ ''_post''],
            entries = map (\<lambda>t. (fst t, [fst (snd t), snd (snd t)])) (pairs_of P Q ids)\<rparr>"
proof -
  let ?Q' = "concat (map (\<lambda>k. filter (\<lambda>p. fst p = k) Q) ids)"
  have step: "(case filter (\<lambda>e. fst e = fst p) (map (\<lambda>q. (fst q, [snd q])) ?Q') of
                 [] \<Rightarrow> [(fst p, [snd p] @ replicate (length [m]) Null)]
               | ms \<Rightarrow> map (\<lambda>e. (fst p, [snd p] @ snd e)) ms)
              = map (\<lambda>q. (fst p, [snd p, snd q])) (filter (\<lambda>q. fst q = fst p) Q)"
    if "fst p \<in> set ids" for p :: "'a cell \<times> 'a cell"
  proof -
    have f: "filter (\<lambda>q. fst q = fst p) ?Q' = filter (\<lambda>q. fst q = fst p) Q"
      using assms(1) that by (rule filter_loc)
    from that assms(2) obtain q where "q \<in> set Q" "fst q = fst p" by auto
    then have ne: "filter (\<lambda>q. fst q = fst p) Q \<noteq> []"
      by (auto simp: filter_empty_conv)
    have c: "(case xs of [] \<Rightarrow> a | y # ys \<Rightarrow> g (y # ys)) = g xs" if "xs \<noteq> []"
      for xs :: "('a cell \<times> 'a cell list) list" and a g
      using that by (cases xs) simp_all
    show ?thesis
      using ne by (simp add: filter_map o_def f c)
  qed
  have "concat (map (\<lambda>(k, vs).
           case filter (\<lambda>e. fst e = k) (map (\<lambda>q. (fst q, [snd q])) ?Q') of
             [] \<Rightarrow> [(k, vs @ replicate (length [m]) Null)]
           | ms \<Rightarrow> map (\<lambda>e. (k, vs @ snd e)) ms)
         (map (\<lambda>p. (fst p, [snd p])) (concat (map (\<lambda>k. filter (\<lambda>p. fst p = k) P) xs))))
       = map (\<lambda>t. (fst t, [fst (snd t), snd (snd t)])) (pairs_of P Q xs)"
    if "set xs \<subseteq> set ids" for xs
    using that
  proof (induction xs)
    case Nil
    then show ?case by (simp add: pairs_of_def)
  next
    case (Cons a xs)
    have a: "a \<in> set ids" using Cons.prems by simp
    have "concat (map (\<lambda>(k, vs).
           case filter (\<lambda>e. fst e = k) (map (\<lambda>q. (fst q, [snd q])) ?Q') of
             [] \<Rightarrow> [(k, vs @ replicate (length [m]) Null)]
           | ms \<Rightarrow> map (\<lambda>e. (k, vs @ snd e)) ms)
         (map (\<lambda>p. (fst p, [snd p])) (filter (\<lambda>p. fst p = a) P)))
       = concat (map (\<lambda>p. map (\<lambda>q. (a, [snd p, snd q])) (filter (\<lambda>q. fst q = a) Q))
                     (filter (\<lambda>p. fst p = a) P))"
      using a step by (auto simp: map_concat o_def intro!: arg_cong[where f=concat] map_cong)
    with Cons show ?case
      by (simp add: pairs_of_def map_concat o_def)
  qed
  from this[of ids] show ?thesis
    by (simp add: join_def keyed_of_def cong: list.case_cong)
qed

lemma sub_cell_error: "sub_cell a b = Inl e \<Longrightarrow> e = TypeError"
  by (cases a; cases b) auto

lemma sequence_sub_cell:
  "sequence (map (\<lambda>t. sub_cell (f t) (g t)) ts)
     = (if \<exists>t\<in>set ts. sub_cell (f t) (g t) = Inl TypeError then Inl TypeError
        else Inr (map (\<lambda>t. diff_cell (f t) (g t)) ts))"
proof (induction ts)
  case Nil
  then show ?case by simp
next
  case (Cons t ts)
  show ?case
  proof (cases "sub_cell (f t) (g t)")
    case (Inl e)
    with sub_cell_error[OF Inl] show ?thesis by simp
  next
    case (Inr d)
    with Cons show ?thesis by (simp add: diff_cell_def)
  qed
qed

lemma reconcile_chunk_eq:
  assumes "distinct ids" "set ids \<subseteq> fst ` set P" "set ids \<subseteq> fst ` set Q"
  shows "reconcile_chunk (keyed_of m P) (keyed_of m Q) m ids
           = (if \<exists>t\<in>set (pairs_of P Q ids). clash t then Inl TypeError
              else Inr \<lparr>columns = out_columns m, rows = out_rows m (pairs_of P Q ids)\<rparr>)"
proof -
  let ?ts = "pairs_of P Q ids"
  let ?merged = "\<lparr>index_name = ''PlayerID'', kcolumns = [m @ ''_pre'', m @ ''_post''],
            entries = map (\<lambda>t. (fst t, [fst (snd t), snd (snd t)])) ?ts\<rparr>"
  have sub: "sub_columns ?merged (m @ ''_pre'') (m @ ''_post'')
      = (if \<exists>t\<in>set ?ts. clash t then Inl TypeError
         else Inr (map (\<lambda>t. diff_cell (fst (snd t)) (snd (snd t))) ?ts))"
    using sequence_sub_cell[of "\<lambda>t. fst (snd t)" "\<lambda>t. snd (snd t)" ?ts]
    by (simp add: sub_columns_def o_def clash_def)
  have rest: "ebind (reset_index (where_ne_zero
             (add_column ?merged ''diff'' (map (\<lambda>t. diff_cell (fst (snd t)) (snd (snd t))) ?ts)) ''diff''))
             (\<lambda>mismatches. Inr (add_constant mismatches ''Metric'' (Str m)))
        = Inr \<lparr>columns = out_columns m, rows = out_rows m ?ts\<rparr>"
    using pre_suffix_neq[of m]
    by (simp add: add_column_def zip_map_same o_def where_ne_zero_def reset_index_def
          add_constant_def out_columns_def out_rows_def filter_map case_prod_beta)
  show ?thesis
    unfolding reconcile_chunk_def
    using assms
    by (simp add: loc_keyed_of join_keyed_of sub rest Let_def)
qed

subsection \<open>The loop and the concatenation\<close>

lemma reconcile_loop_eq:
  assumes "0 < n" "distinct ids" "set ids \<subseteq> fst ` set P" "set ids \<subseteq> fst ` set Q"
  shows "reconcile_loop n (keyed_of m P) (keyed_of m Q) m ids i result
           = (if \<exists>t\<in>set (pairs_of P Q (drop i ids)). clash t then Inl TypeError
              else Inr (result @ map (chunk_frame m P Q) (batches n (drop i ids))))"
proof (induction "length ids - i" arbitrary: i result rule: less_induct)
  case less
  show ?case
  proof (cases "i < length ids")
    case False
    then show ?thesis
      using assms(1) by (subst reconcile_loop.simps) (simp add: pairs_of_def)
  next
    case True
    define c where "c = take n (drop i ids)"
    define cur where "cur = drop i ids"
    define rest where "rest = drop (i + n) ids"
    have d: "distinct c" using assms(2) by (simp add: c_def)
    have s1: "set c \<subseteq> fst ` set P"
      using assms(3) unfolding c_def by (meson in_set_dropD in_set_takeD subset_iff)
    have s2: "set c \<subseteq> fst ` set Q"
      using assms(4) unfolding c_def by (meson in_set_dropD in_set_takeD subset_iff)
    have ne: "drop i ids \<noteq> []" using True by simp
    have cur: "cur = c @ rest"
      unfolding cur_def c_def rest_def
      by (metis add.commute append_take_drop_id drop_drop)
    have b: "batches n cur = c # batches n rest"
      using batches_step[OF assms(1) ne] by (simp add: add.commute cur_def c_def rest_def)
    have m: "length ids - (i + n) < length ids - i" using True assms(1) by simp
    have ih: "reconcile_loop n (keyed_of m P) (keyed_of m Q) m ids (i + n) (result @ [chunk_frame m P Q c])
           = (if \<exists>t\<in>set (pairs_of P Q rest). clash t then Inl TypeError
              else Inr ((result @ [chunk_frame m P Q c]) @ map (chunk_frame m P Q) (batches n rest)))"
      unfolding rest_def by (rule less.hyps[OF m])
    have ch: "reconcile_chunk (keyed_of m P) (keyed_of m Q) m c
           = (if \<exists>t\<in>set (pairs_of P Q c). clash t then Inl TypeError
              else Inr (chunk_frame m P Q c))"
      unfolding chunk_frame_def by (rule reconcile_chunk_eq[OF d s1 s2])
    have "reconcile_loop n (keyed_of m P) (keyed_of m Q) m ids i result
        = (case reconcile_chunk (keyed_of m P) (keyed_of m Q) m c of
             Inl e \<Rightarrow> Inl e
           | Inr mismatches \<Rightarrow>
               reconcile_loop n (keyed_of m P) (keyed_of m Q) m ids (i + n) (result @ [mismatches]))"
      using True assms(1) by (subst reconcile_loop.simps) (simp add: c_def)
    also have "\<dots> = (if \<exists>t\<in>set (pairs_of P Q cur). clash t then Inl TypeError
              else Inr (result @ map (chunk_frame m P Q) (batches n cur)))"
      by (auto simp: ch ih cur b[unfolded cur] pairs_of_append)
    finally show ?thesis by (simp add: cur_def)
  qed
qed

lemma distinct_out_columns: "distinct (out_columns m)"
  using pre_suffix_neq[of m] by (auto simp: out_columns_def)

lemma realign_out_rows:
  "r \<in> set (out_rows m ts) \<Longrightarrow> map (\<lambda>c. getcol (out_columns m) c r) (out_columns m) = r"
  using pre_suffix_neq[of m] by (auto simp: out_rows_def out_columns_def)

lemma concat_frames_chunks:
  assumes "cs \<noteq> []"
  shows "concat_frames (map (chunk_frame m P Q) cs)
           = Inr \<lparr>columns = out_columns m, rows = out_rows m (pairs_of P Q (concat cs))\<rparr>"
proof -
  have cols: "unique (concat (map columns (map (chunk_frame m P Q) cs))) = out_columns m"
    using unique_repeat[OF distinct_out_columns assms, of m]
    by (simp add: o_def chunk_frame_def)
  have rws: "concat (map (\<lambda>f. map (\<lambda>r. map (\<lambda>c. getcol (columns f) c r) (out_columns m)) (rows f))
                      (map (chunk_frame m P Q) xs))
             = out_rows m (pairs_of P Q (concat xs))" for xs
  proof (induction xs)
    case Nil
    then show ?case by (simp add: pairs_of_def out_rows_def)
  next
    case (Cons x xs)
    have "map (\<lambda>r. map (\<lambda>c. getcol (out_columns m) c r) (out_columns m)) (out_rows m (pairs_of P Q x))
            = out_rows m (pairs_of P Q x)"
      by (rule map_idI) (rule realign_out_rows)
    with Cons show ?case
      by (simp add: chunk_frame_def pairs_of_append out_rows_append)
  qed
  show ?thesis
    using assms rws[of cs] unfolding concat_frames_def cols by (simp add: o_def)
qed

lemma reconcile_metric_chunked_eq:
  assumes "m \<in> set (columns pre_df)" "m \<in> set (columns post_df)"
    "''PlayerID'' \<in> set (columns pre_df)" "''PlayerID'' \<in> set (columns post_df)"
    "m \<noteq> ''PlayerID''" "0 < n"
  shows "reconcile_metric_chunked index_storage n pre_df post_df m =
     (let P = keyvals pre_df m; Q = keyvals post_df m;
          ids = common_ids index_storage pre_df post_df m
      in if \<exists>t\<in>set (pairs_of P Q ids). clash t then (Inl TypeError, [])
         else if ids = [] then (Inr empty_frame, [])
         else (Inr \<lparr>columns = out_columns m, rows = out_rows m (pairs_of P Q ids)\<rparr>, []))"
proof -
  define P where "P = keyvals pre_df m"
  define Q where "Q = keyvals post_df m"
  define ids where "ids = intersection
      (index_storage (cells_of pre_df ''PlayerID'') (map fst P)) (map fst P)
      (index_storage (cells_of post_df ''PlayerID'') (map fst Q)) (map fst Q)"
  have idc: "common_ids index_storage pre_df post_df m = ids"
    by (simp add: ids_def common_ids_def index_kind_def index_keys_def P_def Q_def)
  have sp: "select pre_df [''PlayerID'', m] = Inr \<lparr>columns = [''PlayerID'', m],
       rows = map (\<lambda>r. [getcol (columns pre_df) ''PlayerID'' r, getcol (columns pre_df) m r]) (rows pre_df)\<rparr>"
    using assms by (simp add: select_def)
  have sq: "select post_df [''PlayerID'', m] = Inr \<lparr>columns = [''PlayerID'', m],
       rows = map (\<lambda>r. [getcol (columns post_df) ''PlayerID'' r, getcol (columns post_df) m r]) (rows post_df)\<rparr>"
    using assms by (simp add: select_def)
  have ip: "set_index (dropna \<lparr>columns = [''PlayerID'', m],
       rows = map (\<lambda>r. [getcol (columns pre_df) ''PlayerID'' r, getcol (columns pre_df) m r]) (rows pre_df)\<rparr>) ''PlayerID''
       = Inr (keyed_of m P)"
    using pipeline[OF assms(3,1,5)] by (simp add: sp P_def)
  have iq: "set_index (dropna \<lparr>columns = [''PlayerID'', m],
       rows = map (\<lambda>r. [getcol (columns post_df) ''PlayerID'' r, getcol (columns post_df) m r]) (rows post_df)\<rparr>) ''PlayerID''
       = Inr (keyed_of m Q)"
    using pipeline[OF assms(4,2,5)] by (simp add: sq Q_def)
  have e: "map fst (entries (keyed_of m X)) = map fst X" for X :: "('a cell \<times> 'a cell) list"
    by (simp add: keyed_of_def o_def)
  have d: "distinct ids" and s1: "set ids \<subseteq> fst ` set P" and s2: "set ids \<subseteq> fst ` set Q"
    by (auto simp: ids_def intersection_props)
  have loop: "reconcile_loop n (keyed_of m P) (keyed_of m Q) m ids 0 []
           = (if \<exists>t\<in>set (pairs_of P Q ids). clash t then Inl TypeError
              else Inr (map (chunk_frame m P Q) (batches n ids)))"
    using reconcile_loop_eq[OF assms(6) d s1 s2, of m 0 "[]"] by simp
  have "reconcile_metric_chunked index_storage n pre_df post_df m =
      (ebind (reconcile_loop n (keyed_of m P) (keyed_of m Q) m ids 0 []) (\<lambda>result.
        if result \<noteq> [] then concat_frames result else Inr empty_frame), [])"
    using assms(1,2) unfolding reconcile_metric_chunked_def
    by (simp add: sp sq ip iq e ids_def Let_def)
  also have "\<dots> = (if \<exists>t\<in>set (pairs_of P Q ids). clash t then (Inl TypeError, [])
         else if ids = [] then (Inr empty_frame, [])
         else (Inr \<lparr>columns = out_columns m, rows = out_rows m (pairs_of P Q ids)\<rparr>, []))"
    using assms(6)
    by (auto simp: loop batches_empty_iff concat_frames_chunks concat_batches)
  finally show ?thesis
    by (simp add: idc P_def[symmetric] Q_def[symmetric] Let_def)
qed

lemma reconcile_metric_any_batch:
  assumes "0 < n" "0 < n'"
  shows "reconcile_metric_chunked index_storage n pre_df post_df m = reconcile_metric_chunked index_storage n' pre_df post_df m"
proof (cases "m \<in> set (columns pre_df) \<and> m \<in> set (columns post_df) \<and>
    ''PlayerID'' \<in> set (columns pre_df) \<and> ''PlayerID'' \<in> set (columns post_df) \<and> m \<noteq> ''PlayerID''")
  case True
  then show ?thesis
    using assms by (simp add: reconcile_metric_chunked_eq)
next
  case False
  then show ?thesis
    by (auto simp: reconcile_metric_chunked_def select_def set_index_def dropna_def)
qed

subsection \<open>Numeric metrics\<close>

lemma numeric_no_clash:
  assumes "numeric_column pre_df m" "numeric_column post_df m"
    "t \<in> set (pairs_of (keyvals pre_df m) (keyvals post_df m) ids)"
  shows "\<exists>a b. fst (snd t) = Num a \<and> snd (snd t) = Num b"
proof -
  from assms(3) obtain rp rq where
    "rp \<in> set (rows pre_df)" "value_of pre_df m rp = fst (snd t)" "fst (snd t) \<noteq> Null"
    "rq \<in> set (rows post_df)" "value_of post_df m rq = snd (snd t)" "snd (snd t) \<noteq> Null"
    by (auto simp: in_pairs_of in_keyvals)
  with assms(1,2) have "\<not> is_text (fst (snd t))" "\<not> is_text (snd (snd t))"
    "fst (snd t) \<noteq> Null" "snd (snd t) \<noteq> Null"
    by (auto simp: numeric_column_def)
  then show ?thesis
    by (cases "fst (snd t)"; cases "snd (snd t)") auto
qed

lemma reconcile_metric_numeric:
  assumes "m \<in> set (columns pre_df)" "m \<in> set (columns post_df)"
    "''PlayerID'' \<in> set (columns pre_df)" "''PlayerID'' \<in> set (columns post_df)"
    "m \<noteq> ''PlayerID''" "numeric_column pre_df m" "numeric_column post_df m"
  shows "reconcile_metric index_storage pre_df post_df m =
     (let P = keyvals pre_df m; Q = keyvals post_df m;
          ids = common_ids index_storage pre_df post_df m
      in if ids = [] then (Inr empty_frame, [])
         else (Inr \<lparr>columns = out_columns m, rows = out_rows m (pairs_of P Q ids)\<rparr>, []))"
proof -
  have "\<not> clash t" if "t \<in> set (pairs_of (keyvals pre_df m) (keyvals post_df m) ids)" for t ids
    using numeric_no_clash[OF assms(6,7) that] by (auto simp: clash_def)
  then show ?thesis
    unfolding reconcile_metric_def
    using assms(1-5) by (simp add: reconcile_metric_chunked_eq CHUNK_SIZE_def Let_def)
qed

lemma numeric_output:
  assumes "m \<in> set (columns pre_df)" "m \<in> set (columns post_df)"
    "''PlayerID'' \<in> set (columns pre_df)" "''PlayerID'' \<in> set (columns post_df)"
    "m \<noteq> ''PlayerID''" "numeric_column pre_df m" "numeric_column post_df m"
  shows "\<exists>out. fst (reconcile_metric index_storage pre_df post_df m) = Inr out \<and>
     rows out = out_rows m (pairs_of (keyvals pre_df m) (keyvals post_df m)
                   (common_ids index_storage pre_df post_df m)) \<and>
     (rows out = [] \<or> columns out = out_columns m)"
  using reconcile_metric_numeric[OF assms, of index_storage]
  by (auto simp: Let_def empty_frame_def out_rows_def pairs_of_def)

lemma key_of_out_row:
  "r \<in> set (out_rows m ts) \<Longrightarrow> getcol (out_columns m) ''PlayerID'' r = hd r"
  by (auto simp: in_out_rows out_columns_def)

lemma hd_out_rows: "map hd (out_rows m ts)
    = map fst (filter (\<lambda>t. ne_zero (diff_cell (fst (snd t)) (snd (snd t)))) ts)"
  by (simp add: out_rows_def o_def)

lemma filter_out_rows:
  "filter (\<lambda>r. hd r = k) (out_rows m ts) = out_rows m (filter (\<lambda>t. fst t = k) ts)"
  by (induction ts) (auto simp: out_rows_def)

lemma out_rows_concat: "out_rows m (concat tss) = concat (map (out_rows m) tss)"
  by (induction tss) (simp_all add: out_rows_append, simp add: out_rows_def)

lemma filter_pairs_of:
  "distinct ids \<Longrightarrow> k \<in> set ids \<Longrightarrow>
     filter (\<lambda>t. fst t = k) (pairs_of P Q ids) = pairs_of P Q [k]"
proof (induction ids)
  case Nil
  then show ?case by simp
next
  case (Cons a ids)
  have other: "filter (\<lambda>t. fst t = k) (pairs_of P Q xs) = []" if "k \<notin> set xs" for xs
    using that by (auto simp: filter_empty_conv in_pairs_of)
  have same: "filter (\<lambda>t. fst t = k) (pairs_of P Q [k]) = pairs_of P Q [k]"
    by (auto simp: filter_id_conv in_pairs_of)
  have split: "pairs_of P Q (a # ids) = pairs_of P Q [a] @ pairs_of P Q ids"
    using pairs_of_append[of P Q "[a]" ids] by simp
  show ?case
  proof (cases "k = a")
    case True
    with Cons.prems have "k \<notin> set ids" by simp
    from other[OF this] same True show ?thesis by (simp add: split)
  next
    case False
    then have "k \<notin> set [a]" by simp
    from other[OF this] Cons False show ?thesis by (simp add: split)
  qed
qed

lemma pairs_of_grouped:
  assumes "distinct ids"
  shows "concat (map (\<lambda>k. filter (\<lambda>t. fst t = k) (pairs_of P Q ids)) ids) = pairs_of P Q ids"
proof -
  have a: "map (\<lambda>k. filter (\<lambda>t. fst t = k) (pairs_of P Q ids)) ids = map (\<lambda>k. pairs_of P Q [k]) ids"
    by (rule map_cong[OF refl]) (rule filter_pairs_of[OF assms])
  have b: "concat (map (\<lambda>k. pairs_of P Q [k]) ids) = pairs_of P Q ids"
    by (simp add: pairs_of_def)
  show ?thesis by (simp only: a b)
qed

lemma distinct_pairs_of:
  assumes "distinct (map fst P)" "distinct (map fst Q)"
  shows "distinct ids \<Longrightarrow> distinct (map fst (pairs_of P Q ids))"
proof (induction ids)
  case Nil
  then show ?case by (simp add: pairs_of_def)
next
  case (Cons k ids)
  have split: "pairs_of P Q (k # ids) = pairs_of P Q [k] @ pairs_of P Q ids"
    using pairs_of_append[of P Q "[k]" ids] by simp
  have lp: "length (filter (\<lambda>p. fst p = k) P) \<le> 1" by (rule at_most_one[OF assms(1)])
  have lq: "length (filter (\<lambda>q. fst q = k) Q) \<le> 1" by (rule at_most_one[OF assms(2)])
  have "length (pairs_of P Q [k]) \<le> 1"
  proof (cases "filter (\<lambda>p. fst p = k) P")
    case Nil
    then show ?thesis by (simp add: pairs_of_def)
  next
    case (Cons p ps)
    with lp have "ps = []" by simp
    with Cons lq show ?thesis by (simp add: pairs_of_def)
  qed
  then have one: "distinct (map fst (pairs_of P Q [k]))"
    by (simp add: short_distinct)
  have "fst ` set (pairs_of P Q [k]) \<inter> fst ` set (pairs_of P Q ids) = {}"
    using Cons.prems by (auto simp: in_pairs_of)
  with one Cons show ?case by (simp add: split)
qed

subsection \<open>What a returned table holds\<close>

lemma getcol_absent: "c \<notin> set cs \<Longrightarrow> getcol cs c r = Null"
  by (induction cs c r rule: getcol.induct) auto

lemma keyvals_absent: "m \<notin> set (columns df) \<Longrightarrow> keyvals df m = []"
  by (simp add: keyvals_def value_of_def getcol_absent)

lemma pairs_of_Nil [simp]: "pairs_of P Q [] = []"
  by (simp add: pairs_of_def)

lemma out_rows_Nil [simp]: "out_rows m [] = []"
  by (simp add: out_rows_def)

lemma intersection_Nil [simp]:
  "intersection sx [] sy ys = []" "intersection sx xs sy [] = []"
  by (simp_all add: intersection_def)

lemma unclashed_numeric:
  assumes "t \<in> set (pairs_of (keyvals pre_df m) (keyvals post_df m) ids)" "\<not> clash t"
  shows "\<exists>a b. fst (snd t) = Num a \<and> snd (snd t) = Num b"
proof -
  from assms(1) have "fst (snd t) \<noteq> Null" "snd (snd t) \<noteq> Null"
    by (auto simp: in_pairs_of in_keyvals)
  with assms(2) show ?thesis
    by (cases "fst (snd t)"; cases "snd (snd t)") (auto simp: clash_def)
qed

lemma returned_table:
  assumes "fst (reconcile_metric index_storage pre_df post_df m) = Inr out"
  shows "rows out = out_rows m (pairs_of (keyvals pre_df m) (keyvals post_df m)
                       (common_ids index_storage pre_df post_df m))
     \<and> (rows out = [] \<or> columns out = out_columns m)
     \<and> (\<forall>t\<in>set (pairs_of (keyvals pre_df m) (keyvals post_df m) (common_ids index_storage pre_df post_df m)).
           \<not> clash t)"
proof (cases "m \<in> set (columns pre_df) \<and> m \<in> set (columns post_df)")
  case False
  then have "keyvals pre_df m = [] \<or> keyvals post_df m = []"
    by (auto simp: keyvals_absent)
  then have "common_ids index_storage pre_df post_df m = []"
    by (auto simp: common_ids_def index_keys_def)
  moreover from False assms have "out = empty_frame"
    by (auto simp: reconcile_metric_def reconcile_metric_chunked_def)
  ultimately show ?thesis by (simp add: empty_frame_def)
next
  case True
  show ?thesis
  proof (cases "''PlayerID'' \<in> set (columns pre_df) \<and> ''PlayerID'' \<in> set (columns post_df)
      \<and> m \<noteq> ''PlayerID''")
    case False
    with True have "\<exists>e. fst (reconcile_metric index_storage pre_df post_df m) = Inl e"
      by (cases "''PlayerID'' \<in> set (columns pre_df)"; cases "''PlayerID'' \<in> set (columns post_df)")
         (simp_all add: reconcile_metric_def reconcile_metric_chunked_def select_def set_index_def
          dropna_def)
    with assms show ?thesis by simp
  next
    case ok: True
    define ts where "ts = pairs_of (keyvals pre_df m) (keyvals post_df m) (common_ids index_storage pre_df post_df m)"
    have pos: "0 < CHUNK_SIZE" by (simp add: CHUNK_SIZE_def)
    have eq: "fst (reconcile_metric index_storage pre_df post_df m) =
        (if \<exists>t\<in>set ts. clash t then Inl TypeError
         else if common_ids index_storage pre_df post_df m = [] then Inr empty_frame
         else Inr \<lparr>columns = out_columns m, rows = out_rows m ts\<rparr>)"
      using reconcile_metric_chunked_eq[of m pre_df post_df CHUNK_SIZE index_storage] True ok pos
      by (simp add: reconcile_metric_def Let_def ts_def)
    show ?thesis
    proof (cases "\<exists>t\<in>set ts. clash t")
      case True
      with eq assms show ?thesis by simp
    next
      case noclash: False
      show ?thesis
      proof (cases "common_ids index_storage pre_df post_df m = []")
        case True
        with eq noclash assms have "out = empty_frame" by simp
        with True show ?thesis by (simp add: empty_frame_def)
      next
        case False
        with eq noclash assms have "out = \<lparr>columns = out_columns m, rows = out_rows m ts\<rparr>"
          by simp
        with noclash show ?thesis by (simp add: ts_def)
      qed
    qed
  qed
qed

lemma returned_keys:
  assumes "fst (reconcile_metric index_storage pre_df post_df m) = Inr out" "r \<in> set (rows out)"
  shows "getcol (columns out) ''PlayerID'' r = hd r"
proof -
  from returned_table[OF assms(1)] assms(2)
  have "columns out = out_columns m"
    and "r \<in> set (out_rows m (pairs_of (keyvals pre_df m) (keyvals post_df m)
                       (common_ids index_storage pre_df post_df m)))"
    by auto
  then show ?thesis by (simp add: key_of_out_row)
qed

lemma comparable_returns:
  assumes "comparable pre_df post_df m"
  shows "\<exists>out. fst (reconcile_metric index_storage pre_df post_df m) = Inr out"
  using assms numeric_output[of m pre_df post_df] by (auto simp: comparable_def)

text \<open>
  The keys of a returned table: a key labels one of its rows exactly when the key is
  present, some pre row and some post row of that key both hold a number under the
  metric, and the pre number minus the post number is not zero. A table is returned for
  all tables that can be compared on the metric.
\<close>

lemma reported_keys:
  "(comparable pre_df post_df metric \<longrightarrow>
      (\<exists>out. fst (reconcile_metric index_storage pre_df post_df metric) = Inr out))
   \<and> (\<forall>out. fst (reconcile_metric index_storage pre_df post_df metric) = Inr out \<longrightarrow>
        (\<forall>k. (\<exists>r\<in>set (rows out). getcol (columns out) ''PlayerID'' r = k) \<longleftrightarrow>
             (k \<noteq> Null \<and>
              (\<exists>rp\<in>set (rows pre_df). \<exists>rq\<in>set (rows post_df). \<exists>a b.
                 key_of pre_df rp = k \<and> key_of post_df rq = k \<and>
                 value_of pre_df metric rp = Num a \<and> value_of post_df metric rq = Num b \<and>
                 a - b \<noteq> 0))))"
proof -
  define P where "P = keyvals pre_df metric"
  define Q where "Q = keyvals post_df metric"
  define ids where "ids = common_ids index_storage pre_df post_df metric"
  have ipc: "t \<in> set (pairs_of P Q ids) \<longleftrightarrow>
      (fst t, fst (snd t)) \<in> set P \<and> (fst t, snd (snd t)) \<in> set Q" for t
    unfolding P_def Q_def ids_def by (rule in_pairs_common)
  have main: "(\<exists>r\<in>set (rows out). getcol (columns out) ''PlayerID'' r = k) \<longleftrightarrow>
          (k \<noteq> Null \<and>
           (\<exists>rp\<in>set (rows pre_df). \<exists>rq\<in>set (rows post_df). \<exists>a b.
              key_of pre_df rp = k \<and> key_of post_df rq = k \<and>
              value_of pre_df metric rp = Num a \<and> value_of post_df metric rq = Num b \<and>
              a - b \<noteq> 0))" (is "?L \<longleftrightarrow> ?R")
    if res: "fst (reconcile_metric index_storage pre_df post_df metric) = Inr out" for out k
  proof
    from returned_table[OF res]
    have rows_out: "rows out = out_rows metric (pairs_of P Q ids)"
      and noclash: "\<And>t. t \<in> set (pairs_of P Q ids) \<Longrightarrow> \<not> clash t"
      unfolding P_def Q_def ids_def by auto
    assume ?L
    then obtain r where r: "r \<in> set (rows out)" "hd r = k"
      using returned_keys[OF res] by auto
    then obtain t where t: "t \<in> set (pairs_of P Q ids)"
        "ne_zero (diff_cell (fst (snd t)) (snd (snd t)))" "fst t = k"
      by (auto simp: rows_out in_out_rows)
    from unclashed_numeric[OF t(1)[unfolded P_def Q_def]] noclash[OF t(1)]
    obtain a b where ab: "fst (snd t) = Num a" "snd (snd t) = Num b" by auto
    from t(1) have "(k, Num a) \<in> set P" "(k, Num b) \<in> set Q"
      using ab t(3) by (auto simp: ipc)
    then obtain rp rq where "rp \<in> set (rows pre_df)" "key_of pre_df rp = k"
        "value_of pre_df metric rp = Num a" "k \<noteq> Null"
        "rq \<in> set (rows post_df)" "key_of post_df rq = k" "value_of post_df metric rq = Num b"
      by (auto simp: P_def Q_def in_keyvals)
    moreover from t(2) ab have "a - b \<noteq> 0" by (simp add: diff_cell_def)
    ultimately show ?R by blast
  next
    from returned_table[OF res]
    have rows_out: "rows out = out_rows metric (pairs_of P Q ids)"
      unfolding P_def Q_def ids_def by auto
    assume ?R
    then obtain rp rq a b where h: "k \<noteq> Null" "rp \<in> set (rows pre_df)" "rq \<in> set (rows post_df)"
        "key_of pre_df rp = k" "key_of post_df rq = k"
        "value_of pre_df metric rp = Num a" "value_of post_df metric rq = Num b" "a - b \<noteq> 0"
      by blast
    then have "(k, Num a) \<in> set P" "(k, Num b) \<in> set Q"
      by (auto simp: P_def Q_def in_keyvals)
    then have "(k, Num a, Num b) \<in> set (pairs_of P Q ids)"
      by (simp add: ipc)
    with h(8) have "[k, Num a, Num b, Num (a - b), Str metric] \<in> set (rows out)"
      by (force simp: rows_out in_out_rows diff_cell_def)
    with returned_keys[OF res] show ?L by force
  qed
  show ?thesis
    by (intro conjI allI impI) (erule comparable_returns, erule main)
qed

lemma rows_chunk_frames:
  "concat (map rows (map (chunk_frame m P Q) cs)) = out_rows m (pairs_of P Q (concat cs))"
  by (induction cs) (simp_all add: chunk_frame_def pairs_of_append out_rows_append)

subsection \<open>The example of the specification\<close>

lemma example_run:
  "reconcile_metric range_storage example_pre example_post ''Balance''
     = (Inr \<lparr>columns = [''PlayerID'', ''Balance_pre'', ''Balance_post'', ''diff'', ''Metric''],
             rows = [[Num 2, Num 200, Num 250, Num (- 50), Str ''Balance'']]\<rparr>, [])"
proof -
  have "reconcile_metric_chunked range_storage 1 example_pre example_post ''Balance''
     = (Inr \<lparr>columns = [''PlayerID'', ''Balance_pre'', ''Balance_post'', ''diff'', ''Metric''],
             rows = [[Num 2, Num 200, Num 250, Num (- 50), Str ''Balance'']]\<rparr>, [])"
    by code_simp
  then show ?thesis
    using reconcile_metric_any_batch[of CHUNK_SIZE 1 range_storage example_pre example_post
        "''Balance''"]
    by (simp add: reconcile_metric_def CHUNK_SIZE_def)
qed

lemma example_hyps:
  "''Balance'' \<in> set (columns example_pre)" "''Balance'' \<in> set (columns example_post)"
  "''PlayerID'' \<in> set (columns example_pre)" "''PlayerID'' \<in> set (columns example_post)"
  "''Balance'' \<noteq> ''PlayerID''"
  "numeric_column example_pre ''Balance''" "numeric_column example_post ''Balance''"
  "unique_keys example_pre" "unique_keys example_post"
  by (simp_all add: example_pre_def example_post_def numeric_column_def value_of_def
      unique_keys_def key_of_def)

lemma example_comparable: "comparable example_pre example_post ''Balance''"
  using example_hyps by (simp add: comparable_def)

lemma example_returns: "fst (reconcile_metric range_storage example_pre example_post ''Balance'') = Inr example_out"
  by (simp add: example_run example_out_def)

lemma example_down_run:
  "reconcile_metric range_storage example_down example_up ''Balance'' = (Inr example_up_out, [])"
proof -
  have "reconcile_metric_chunked range_storage 1 example_down example_up ''Balance''
     = (Inr example_up_out, [])"
    by code_simp
  then show ?thesis
    using reconcile_metric_any_batch[of CHUNK_SIZE 1 range_storage example_down example_up
        "''Balance''"]
    by (simp add: reconcile_metric_def CHUNK_SIZE_def)
qed

lemma example_down_plain:
  "reconcile_metric plain_storage example_down example_up ''Balance''
     = (Inr \<lparr>columns = [''PlayerID'', ''Balance_pre'', ''Balance_post'', ''diff'', ''Metric''],
             rows = [[Num 3, Num 30, Num 33, Num (- 3), Str ''Balance''],
                     [Num 2, Num 20, Num 22, Num (- 2), Str ''Balance''],
                     [Num 1, Num 10, Num 11, Num (- 1), Str ''Balance'']]\<rparr>, [])"
proof -
  have "reconcile_metric_chunked plain_storage 1 example_down example_up ''Balance''
     = (Inr \<lparr>columns = [''PlayerID'', ''Balance_pre'', ''Balance_post'', ''diff'', ''Metric''],
             rows = [[Num 3, Num 30, Num 33, Num (- 3), Str ''Balance''],
                     [Num 2, Num 20, Num 22, Num (- 2), Str ''Balance''],
                     [Num 1, Num 10, Num 11, Num (- 1), Str ''Balance'']]\<rparr>, [])"
    by code_simp
  then show ?thesis
    using reconcile_metric_any_batch[of CHUNK_SIZE 1 plain_storage example_down example_up
        "''Balance''"]
    by (simp add: reconcile_metric_def CHUNK_SIZE_def)
qed

lemma example_down_ids:
  "index_keys example_down ''Balance'' = [Num 3, Num 2, Num 1]"
  "index_keys example_up ''Balance'' = [Num 1, Num 2, Num 3]"
  "index_kind range_storage example_down ''Balance'' = RangeDown"
  "index_kind range_storage example_up ''Balance'' = RangeUp"
  "common_ids range_storage example_down example_up ''Balance'' = [Num 1, Num 2, Num 3]"
  "common_ids plain_storage example_down example_up ''Balance'' = [Num 3, Num 2, Num 1]"
  by code_simp+

lemma example_down_comparable: "comparable example_down example_up ''Balance''"
  by (simp add: comparable_def example_down_def example_up_def numeric_column_def value_of_def)

section \<open>The claims about reconcile_metric\<close>

subsection \<open>A metric that one table lacks\<close>

text \<open>
  C4: when the metric is not a column of the pre table or not a column of the post table,
  \<open>reconcile_metric\<close> returns the empty table and writes one diagnostic naming the
  metric; it raises nothing, whatever else the tables hold.
\<close>

theorem reconcile_metric_missing_metric:
  "metric \<notin> set (columns pre_df) \<or> metric \<notin> set (columns post_df) \<Longrightarrow>
     reconcile_metric index_storage pre_df post_df metric =
       (Inr empty_frame, [''Metric '' @ metric @ '' not found in one of the files''])"
  by (simp add: reconcile_metric_def reconcile_metric_chunked_def)

theorem reconcile_metric_missing_metric_witness:
  "''Bonus'' \<notin> set (columns \<lparr>columns = [''PlayerID'', ''Balance''], rows = [[Num (1::int), Num 100]]\<rparr>)
   \<and> reconcile_metric range_storage \<lparr>columns = [''PlayerID'', ''Balance''], rows = [[Num (1::int), Num 100]]\<rparr>
         \<lparr>columns = [''Balance''], rows = [[Num 7]]\<rparr> ''Bonus''
       = (Inr \<lparr>columns = [], rows = []\<rparr>, [''Metric Bonus not found in one of the files''])"
  using reconcile_metric_missing_metric
    [of "''Bonus''" "\<lparr>columns = [''PlayerID'', ''Balance''], rows = [[Num (1::int), Num 100]]\<rparr>"
        "\<lparr>columns = [''Balance''], rows = [[Num 7]]\<rparr>"]
  by (simp add: empty_frame_def)

subsection \<open>Which keys are reported\<close>

text \<open>
  C1: the rule "a key is reported exactly when both values are present and differ" is
  stated for every pair of tables, but \<open>reconcile_metric\<close> does not return a table for
  every pair. When some key is present in a pre row and in a post row, both rows hold a
  value under the metric, and one of the two values is a text, the subtraction of line
  50 raises \<open>TypeError\<close>, whatever the other rows hold and however the indexes are
  stored: no row is reported for any key. The handler makes such a call on line 120,
  with the login tables, whose dates \<open>read_csv\<close> leaves as text.
\<close>

theorem reconcile_metric_text_raises:
  assumes "''PlayerID'' \<in> set (columns pre_df)" "''PlayerID'' \<in> set (columns post_df)"
    "metric \<in> set (columns pre_df)" "metric \<in> set (columns post_df)" "metric \<noteq> ''PlayerID''"
    "rp \<in> set (rows pre_df)" "rq \<in> set (rows post_df)"
    "key_of pre_df rp \<noteq> Null" "key_of post_df rq = key_of pre_df rp"
    "value_of pre_df metric rp \<noteq> Null" "value_of post_df metric rq \<noteq> Null"
    "is_text (value_of pre_df metric rp) \<or> is_text (value_of post_df metric rq)"
  shows "reconcile_metric index_storage pre_df post_df metric = (Inl TypeError, [])"
proof -
  define t where "t = (key_of pre_df rp, value_of pre_df metric rp, value_of post_df metric rq)"
  have "(key_of pre_df rp, value_of pre_df metric rp) \<in> set (keyvals pre_df metric)"
    using assms(6,8,10) by (auto simp: in_keyvals)
  moreover have "(key_of pre_df rp, value_of post_df metric rq) \<in> set (keyvals post_df metric)"
    using assms(7,8,9,11) by (auto simp: in_keyvals)
  ultimately have "t \<in> set (pairs_of (keyvals pre_df metric) (keyvals post_df metric)
                       (common_ids index_storage pre_df post_df metric))"
    by (simp add: in_pairs_common t_def)
  moreover have "clash t"
    using assms(10,11,12)
    by (cases "value_of pre_df metric rp"; cases "value_of post_df metric rq")
       (auto simp: clash_def t_def)
  ultimately have "\<exists>t\<in>set (pairs_of (keyvals pre_df metric) (keyvals post_df metric)
                       (common_ids index_storage pre_df post_df metric)). clash t"
    by blast
  then show ?thesis
    using reconcile_metric_chunked_eq[OF assms(3,4,1,2,5), of CHUNK_SIZE index_storage]
    by (simp add: reconcile_metric_def CHUNK_SIZE_def Let_def)
qed

theorem reconcile_metric_text_raises_witness:
  "''PlayerID'' \<in> set (columns example_pre_login) \<and> ''PlayerID'' \<in> set (columns example_login)
   \<and> ''LastLoginDate'' \<in> set (columns example_pre_login)
   \<and> ''LastLoginDate'' \<in> set (columns example_login)
   \<and> ''LastLoginDate'' \<noteq> ''PlayerID''
   \<and> [Num 1, Str ''2024-01-02''] \<in> set (rows example_pre_login)
   \<and> [Num 1, Str ''2024-01-05''] \<in> set (rows example_login)
   \<and> key_of example_pre_login [Num 1, Str ''2024-01-02''] = Num 1
   \<and> key_of example_login [Num 1, Str ''2024-01-05''] = Num 1
   \<and> value_of example_pre_login ''LastLoginDate'' [Num 1, Str ''2024-01-02''] = Str ''2024-01-02''
   \<and> value_of example_login ''LastLoginDate'' [Num 1, Str ''2024-01-05''] = Str ''2024-01-05''
   \<and> reconcile_metric range_storage example_pre_login example_login ''LastLoginDate''
       = (Inl TypeError, [])
   \<and> reconcile_metric plain_storage example_pre_login example_login ''LastLoginDate''
       = (Inl TypeError, [])"
proof -
  have h: "''PlayerID'' \<in> set (columns example_pre_login)"
    "''PlayerID'' \<in> set (columns example_login)"
    "''LastLoginDate'' \<in> set (columns example_pre_login)"
    "''LastLoginDate'' \<in> set (columns example_login)"
    "''LastLoginDate'' \<noteq> ''PlayerID''"
    "[Num 1, Str ''2024-01-02''] \<in> set (rows example_pre_login)"
    "[Num 1, Str ''2024-01-05''] \<in> set (rows example_login)"
    "key_of example_pre_login [Num 1, Str ''2024-01-02''] = Num 1"
    "key_of example_login [Num 1, Str ''2024-01-05''] = Num 1"
    "value_of example_pre_login ''LastLoginDate'' [Num 1, Str ''2024-01-02''] = Str ''2024-01-02''"
    "value_of example_login ''LastLoginDate'' [Num 1, Str ''2024-01-05''] = Str ''2024-01-05''"
    by (simp_all add: example_pre_login_def example_login_def key_of_def value_of_def)
  have r: "reconcile_metric index_storage example_pre_login example_login ''LastLoginDate''
       = (Inl TypeError, [])" for index_storage
    by (rule reconcile_metric_text_raises[of example_pre_login example_login "''LastLoginDate''"
          "[Num 1, Str ''2024-01-02'']" "[Num 1, Str ''2024-01-05'']"])
       (simp_all add: h)
  show ?thesis
    by (intro conjI h r)
qed

subsection \<open>The batch size\<close>

text \<open>
  C2: any two positive batch sizes give the same result: the same table (header, rows
  and row order) or the same exception, and the same diagnostics; the batch size of the
  program, \<open>CHUNK_SIZE\<close>, is one of them.
\<close>

theorem reconcile_metric_batch_size_irrelevant:
  "0 < n \<Longrightarrow> 0 < n' \<Longrightarrow>
     reconcile_metric_chunked index_storage n pre_df post_df metric
       = reconcile_metric_chunked index_storage n' pre_df post_df metric
     \<and> reconcile_metric index_storage pre_df post_df metric
         = reconcile_metric_chunked index_storage n pre_df post_df metric"
  using reconcile_metric_any_batch[of n n' index_storage pre_df post_df metric]
    reconcile_metric_any_batch[of CHUNK_SIZE n index_storage pre_df post_df metric]
  by (simp add: reconcile_metric_def CHUNK_SIZE_def)

theorem reconcile_metric_batch_size_irrelevant_witness:
  "(0::nat) < 1 \<and> (0::nat) < 2
   \<and> reconcile_metric_chunked range_storage 1 example_pre example_post ''Balance''
       = reconcile_metric_chunked range_storage 2 example_pre example_post ''Balance''
   \<and> reconcile_metric range_storage example_pre example_post ''Balance''
       = reconcile_metric_chunked range_storage 1 example_pre example_post ''Balance''"
  using reconcile_metric_batch_size_irrelevant[of 1 2 range_storage example_pre example_post
      "''Balance''"]
  by simp

subsection \<open>The order of the rows\<close>

text \<open>
  C5, as stated: the common keys keep the order of the pre table's index, and the rows
  of the output come in that order. This fails when the library stores the two indexes
  as ranges (version 3 on): for a pre table with the keys 3, 2, 1 and a post table with
  the keys 1, 2, 3, every balance differing, the common keys are 1, 2, 3, which is not a
  subsequence of the pre index 3, 2, 1, and the rows of the output come for the keys 1,
  2, 3. The library before version 3 gives 3, 2, 1.
\<close>

theorem reconcile_metric_row_order_counterexample:
  "index_keys example_down ''Balance'' = [Num 3, Num 2, Num 1]
   \<and> common_ids range_storage example_down example_up ''Balance'' = [Num 1, Num 2, Num 3]
   \<and> \<not> subseq (common_ids range_storage example_down example_up ''Balance'')
              (index_keys example_down ''Balance'')
   \<and> fst (reconcile_metric range_storage example_down example_up ''Balance'') = Inr example_up_out
   \<and> map (getcol (columns example_up_out) ''PlayerID'') (rows example_up_out)
       = [Num 1, Num 2, Num 3]
   \<and> common_ids plain_storage example_down example_up ''Balance'' = [Num 3, Num 2, Num 1]"
proof -
  have n: "\<not> subseq [Num 1, Num 2, Num (3::int)] [Num 3, Num 2, Num 1]"
    by (simp add: subseq_Cons2_iff)
  have k: "map (getcol (columns example_up_out) ''PlayerID'') (rows example_up_out)
       = [Num 1, Num 2, Num 3]"
    by (simp add: example_up_out_def)
  show ?thesis
    by (simp add: example_down_ids example_down_run n k)
qed

text \<open>
  C5: the common keys are exactly the keys that both indexes carry, each once. They
  follow the order of the pre table's index (the keys of its rows with a key and a
  value, in table order), unless the pre index is stored as a range that goes down and
  the post index as a range that goes up: then they follow the reverse of that order.
  Whenever \<open>reconcile_metric\<close> returns a table, the table lists, for each common key in
  the order of the common keys, the rows of that key; and it is the concatenation, in
  loop order, of the rows of the batch results, each batch keeping its own row order. It
  does return a table for all tables that can be compared on the metric.
\<close>

theorem reconcile_metric_row_order:
  "(comparable pre_df post_df metric \<longrightarrow>
      (\<exists>out. fst (reconcile_metric index_storage pre_df post_df metric) = Inr out))
   \<and> subseq (if index_kind index_storage pre_df metric = RangeDown
                \<and> index_kind index_storage post_df metric = RangeUp
             then rev (common_ids index_storage pre_df post_df metric)
             else common_ids index_storage pre_df post_df metric) (index_keys pre_df metric)
   \<and> distinct (common_ids index_storage pre_df post_df metric)
   \<and> set (common_ids index_storage pre_df post_df metric)
       = set (index_keys pre_df metric) \<inter> set (index_keys post_df metric)
   \<and> (\<forall>out. fst (reconcile_metric index_storage pre_df post_df metric) = Inr out \<longrightarrow>
        rows out = concat (map (\<lambda>k. filter (\<lambda>r. getcol (columns out) ''PlayerID'' r = k) (rows out))
                               (common_ids index_storage pre_df post_df metric)) \<and>
        (\<exists>batch_results.
           reconcile_loop CHUNK_SIZE (keyed_of metric (keyvals pre_df metric))
               (keyed_of metric (keyvals post_df metric)) metric
               (common_ids index_storage pre_df post_df metric) 0 [] = Inr batch_results \<and>
           rows out = concat (map rows batch_results)))"
proof -
  define P where "P = keyvals pre_df metric"
  define Q where "Q = keyvals post_df metric"
  define ids where "ids = common_ids index_storage pre_df post_df metric"
  have d: "distinct ids" and s1: "set ids \<subseteq> fst ` set P" and s2: "set ids \<subseteq> fst ` set Q"
    by (auto simp: ids_def common_ids_props index_keys_def P_def Q_def)
  have main: "rows out = concat (map (\<lambda>k. filter (\<lambda>r. getcol (columns out) ''PlayerID'' r = k) (rows out))
                               (common_ids index_storage pre_df post_df metric)) \<and>
        (\<exists>batch_results.
           reconcile_loop CHUNK_SIZE (keyed_of metric (keyvals pre_df metric))
               (keyed_of metric (keyvals post_df metric)) metric
               (common_ids index_storage pre_df post_df metric) 0 [] = Inr batch_results \<and>
           rows out = concat (map rows batch_results))"
    if res: "fst (reconcile_metric index_storage pre_df post_df metric) = Inr out" for out
  proof -
    from returned_table[OF res]
    have rows_out: "rows out = out_rows metric (pairs_of P Q ids)"
      and noclash: "\<not> (\<exists>t\<in>set (pairs_of P Q ids). clash t)"
      unfolding P_def Q_def ids_def by auto
    have eq: "map (\<lambda>k. filter (\<lambda>r. getcol (columns out) ''PlayerID'' r = k) (rows out)) ids
        = map (\<lambda>k. out_rows metric (filter (\<lambda>t. fst t = k) (pairs_of P Q ids))) ids"
    proof (rule map_cong[OF refl])
      fix k
      have "filter (\<lambda>r. getcol (columns out) ''PlayerID'' r = k) (rows out)
          = filter (\<lambda>r. hd r = k) (rows out)"
        by (rule filter_cong[OF refl]) (simp add: returned_keys[OF res])
      then show "filter (\<lambda>r. getcol (columns out) ''PlayerID'' r = k) (rows out)
          = out_rows metric (filter (\<lambda>t. fst t = k) (pairs_of P Q ids))"
        by (simp add: rows_out filter_out_rows)
    qed
    have "concat (map (\<lambda>k. filter (\<lambda>r. getcol (columns out) ''PlayerID'' r = k) (rows out)) ids)
        = out_rows metric (concat (map (\<lambda>k. filter (\<lambda>t. fst t = k) (pairs_of P Q ids)) ids))"
      unfolding eq by (simp add: out_rows_concat o_def)
    then have grouped:
      "rows out = concat (map (\<lambda>k. filter (\<lambda>r. getcol (columns out) ''PlayerID'' r = k) (rows out)) ids)"
      by (simp add: pairs_of_grouped[OF d] rows_out)
    have loop: "reconcile_loop CHUNK_SIZE (keyed_of metric P) (keyed_of metric Q) metric ids 0 []
        = Inr (map (chunk_frame metric P Q) (batches CHUNK_SIZE ids))"
      using reconcile_loop_eq[OF _ d s1 s2, of CHUNK_SIZE metric 0 "[]"] noclash
      by (simp add: CHUNK_SIZE_def)
    have "rows out = concat (map rows (map (chunk_frame metric P Q) (batches CHUNK_SIZE ids)))"
      unfolding rows_chunk_frames by (simp add: rows_out concat_batches CHUNK_SIZE_def)
    with loop have "\<exists>batch_results.
          reconcile_loop CHUNK_SIZE (keyed_of metric P) (keyed_of metric Q) metric ids 0 []
            = Inr batch_results \<and> rows out = concat (map rows batch_results)"
      by (intro exI conjI)
    with grouped show ?thesis
      unfolding P_def Q_def ids_def by (rule conjI)
  qed
  have a: "comparable pre_df post_df metric \<longrightarrow>
      (\<exists>out. fst (reconcile_metric index_storage pre_df post_df metric) = Inr out)"
    by (intro impI) (erule comparable_returns)
  have b: "\<forall>out. fst (reconcile_metric index_storage pre_df post_df metric) = Inr out \<longrightarrow>
        rows out = concat (map (\<lambda>k. filter (\<lambda>r. getcol (columns out) ''PlayerID'' r = k) (rows out))
                               (common_ids index_storage pre_df post_df metric)) \<and>
        (\<exists>batch_results.
           reconcile_loop CHUNK_SIZE (keyed_of metric (keyvals pre_df metric))
               (keyed_of metric (keyvals post_df metric)) metric
               (common_ids index_storage pre_df post_df metric) 0 [] = Inr batch_results \<and>
           rows out = concat (map rows batch_results))"
    by (intro allI impI) (erule main)
  show ?thesis
    by (intro conjI a b common_ids_props)
qed

theorem reconcile_metric_row_order_witness:
  "comparable example_down example_up ''Balance''
   \<and> fst (reconcile_metric range_storage example_down example_up ''Balance'') = Inr example_up_out
   \<and> index_kind range_storage example_down ''Balance'' = RangeDown
   \<and> index_kind range_storage example_up ''Balance'' = RangeUp
   \<and> subseq (rev (common_ids range_storage example_down example_up ''Balance''))
            (index_keys example_down ''Balance'')
   \<and> distinct (common_ids range_storage example_down example_up ''Balance'')
   \<and> set (common_ids range_storage example_down example_up ''Balance'')
       = set (index_keys example_down ''Balance'') \<inter> set (index_keys example_up ''Balance'')
   \<and> rows example_up_out
       = concat (map (\<lambda>k. filter (\<lambda>r. getcol (columns example_up_out) ''PlayerID'' r = k)
                                   (rows example_up_out))
                     (common_ids range_storage example_down example_up ''Balance''))
   \<and> (\<exists>batch_results.
         reconcile_loop CHUNK_SIZE (keyed_of ''Balance'' (keyvals example_down ''Balance''))
             (keyed_of ''Balance'' (keyvals example_up ''Balance'')) ''Balance''
             (common_ids range_storage example_down example_up ''Balance'') 0 [] = Inr batch_results \<and>
         rows example_up_out = concat (map rows batch_results))
   \<and> common_ids range_storage example_down example_up ''Balance'' = [Num 1, Num 2, Num 3]
   \<and> index_kind range_storage example_pre ''Balance'' = RangeUp
   \<and> subseq (common_ids range_storage example_pre example_post ''Balance'')
            (index_keys example_pre ''Balance'')
   \<and> common_ids range_storage example_pre example_post ''Balance'' = [Num 1, Num 2]
   \<and> index_keys example_pre ''Balance'' = [Num 1, Num 2]"
proof -
  have r: "fst (reconcile_metric range_storage example_down example_up ''Balance'')
      = Inr example_up_out"
    by (simp add: example_down_run)
  note t = reconcile_metric_row_order[of example_down example_up "''Balance''" range_storage]
  note u = t[THEN conjunct2, THEN conjunct2, THEN conjunct2, THEN conjunct2, rule_format, OF r]
  note v = reconcile_metric_row_order[of example_pre example_post "''Balance''" range_storage,
      THEN conjunct2, THEN conjunct1]
  have k: "index_kind range_storage example_pre ''Balance'' = RangeUp"
    "common_ids range_storage example_pre example_post ''Balance'' = [Num 1, Num 2]"
    "index_keys example_pre ''Balance'' = [Num 1, Num 2]"
    by code_simp+
  have s: "subseq (rev (common_ids range_storage example_down example_up ''Balance''))
            (index_keys example_down ''Balance'')"
    using t[THEN conjunct2, THEN conjunct1] by (simp add: example_down_ids(3,4))
  have s': "subseq (common_ids range_storage example_pre example_post ''Balance'')
            (index_keys example_pre ''Balance'')"
    using v by (simp add: k(1))
  show ?thesis
    by (intro conjI example_down_comparable r example_down_ids(3,4,5) k s s'
        t[THEN conjunct2, THEN conjunct2, THEN conjunct1]
        t[THEN conjunct2, THEN conjunct2, THEN conjunct2, THEN conjunct1]
        u[THEN conjunct1] u[THEN conjunct2])
qed

subsection \<open>The shape of a row\<close>



subsection \<open>Unique keys\<close>

text \<open>
  C10: when no key repeats within the pre table and none repeats within the post
  table, no key labels two rows of a table that \<open>reconcile_metric\<close> returns. It does
  return a table for all tables that can be compared on the metric.
\<close>

theorem reconcile_metric_unique_rows:
  assumes "unique_keys pre_df" "unique_keys post_df"
  shows "(comparable pre_df post_df metric \<longrightarrow>
      (\<exists>out. fst (reconcile_metric index_storage pre_df post_df metric) = Inr out))
   \<and> (\<forall>out. fst (reconcile_metric index_storage pre_df post_df metric) = Inr out \<longrightarrow>
        distinct (map (getcol (columns out) ''PlayerID'') (rows out)))"
proof -
  define P where "P = keyvals pre_df metric"
  define Q where "Q = keyvals post_df metric"
  define ids where "ids = common_ids index_storage pre_df post_df metric"
  have d: "distinct ids"
    by (simp add: ids_def common_ids_def intersection_props)
  have dp: "distinct (map fst P)" and dq: "distinct (map fst Q)"
    using distinct_index_keys[OF assms(1), of metric] distinct_index_keys[OF assms(2), of metric]
    by (simp_all add: index_keys_def P_def Q_def)
  have main: "distinct (map (getcol (columns out) ''PlayerID'') (rows out))"
    if res: "fst (reconcile_metric index_storage pre_df post_df metric) = Inr out" for out
  proof -
    from returned_table[OF res]
    have rows_out: "rows out = out_rows metric (pairs_of P Q ids)"
      unfolding P_def Q_def ids_def by auto
    have "map (getcol (columns out) ''PlayerID'') (rows out) = map hd (rows out)"
      by (rule map_cong[OF refl]) (rule returned_keys[OF res])
    also have "\<dots> = map fst (filter (\<lambda>t. ne_zero (diff_cell (fst (snd t)) (snd (snd t))))
                                (pairs_of P Q ids))"
      by (simp add: rows_out hd_out_rows)
    finally show ?thesis
      using distinct_map_filter[OF distinct_pairs_of[OF dp dq d]] by simp
  qed
  show ?thesis
    by (intro conjI allI impI) (erule comparable_returns, erule main)
qed

theorem reconcile_metric_unique_rows_witness:
  "unique_keys example_pre \<and> unique_keys example_post
   \<and> comparable example_pre example_post ''Balance''
   \<and> fst (reconcile_metric range_storage example_pre example_post ''Balance'') = Inr example_out
   \<and> distinct (map (getcol (columns example_out) ''PlayerID'') (rows example_out))"
  by (intro conjI example_hyps(8,9) example_comparable example_returns
      reconcile_metric_unique_rows[OF example_hyps(8,9), of "''Balance''",
        THEN conjunct2, rule_format, OF example_returns])

section \<open>The claim about reconcile_login\<close>

lemma reconcile_login_eq:
  assumes "''PlayerID'' \<in> set (columns post_df)" "''LastLoginDate'' \<in> set (columns post_df)"
  shows "reconcile_login pre_ids post_df =
     Inr \<lparr>columns = [''PlayerID'', ''Metric'', ''Status''],
          rows = map (\<lambda>pid. [pid, Str ''LastLoginDate'', Str ''Missing Post''])
                     (filter (\<lambda>pid. pid \<notin> set (index_keys post_df ''LastLoginDate'')) pre_ids)\<rparr>"
proof -
  have sel: "select post_df [''PlayerID'', ''LastLoginDate'']
      = Inr \<lparr>columns = [''PlayerID'', ''LastLoginDate''],
             rows = map (\<lambda>r. [getcol (columns post_df) ''PlayerID'' r,
                              getcol (columns post_df) ''LastLoginDate'' r]) (rows post_df)\<rparr>"
    using assms by (simp add: select_def)
  have ix: "set_index (dropna \<lparr>columns = [''PlayerID'', ''LastLoginDate''],
             rows = map (\<lambda>r. [getcol (columns post_df) ''PlayerID'' r,
                              getcol (columns post_df) ''LastLoginDate'' r]) (rows post_df)\<rparr>) ''PlayerID''
      = Inr (keyed_of ''LastLoginDate'' (keyvals post_df ''LastLoginDate''))"
    using pipeline[OF assms(1,2)] by (simp add: sel)
  have "fst ` set (entries (keyed_of ''LastLoginDate'' kvs)) = set (map fst kvs)"
    for kvs :: "('a cell \<times> 'a cell) list"
    by (simp add: keyed_of_def image_image)
  then show ?thesis
    unfolding reconcile_login_def by (simp add: sel ix index_keys_def Let_def)
qed

text \<open>
  C3: for a post table with the columns \<open>PlayerID\<close> and \<open>LastLoginDate\<close>,
  \<open>reconcile_login\<close> returns one row \<open>[key, LastLoginDate, Missing Post]\<close> for every
  element of \<open>pre_ids\<close>, in the order of \<open>pre_ids\<close>, that is not the key of a post row
  with a date, and nothing else. A missing key of \<open>pre_ids\<close> is never the key of a post
  row, so it is always reported.
\<close>

theorem reconcile_login_missing_post:
  assumes "''PlayerID'' \<in> set (columns post_df)" "''LastLoginDate'' \<in> set (columns post_df)"
  shows "reconcile_login pre_ids post_df =
     Inr \<lparr>columns = [''PlayerID'', ''Metric'', ''Status''],
          rows = map (\<lambda>pid. [pid, Str ''LastLoginDate'', Str ''Missing Post''])
                     (filter (\<lambda>pid. \<not> (\<exists>r\<in>set (rows post_df).
                                 key_of post_df r = pid \<and> pid \<noteq> Null \<and>
                                 value_of post_df ''LastLoginDate'' r \<noteq> Null)) pre_ids)\<rparr>"
proof -
  have "pid \<notin> set (index_keys post_df ''LastLoginDate'') \<longleftrightarrow>
      \<not> (\<exists>r\<in>set (rows post_df). key_of post_df r = pid \<and> pid \<noteq> Null \<and>
             value_of post_df ''LastLoginDate'' r \<noteq> Null)" for pid
    by (auto simp: index_keys_def keyvals_def)
  then show ?thesis
    by (simp add: reconcile_login_eq[OF assms])
qed

theorem reconcile_login_missing_post_witness:
  "''PlayerID'' \<in> set (columns example_login) \<and> ''LastLoginDate'' \<in> set (columns example_login)
   \<and> reconcile_login [Num 1, Num 2, Num 3] example_login =
     Inr \<lparr>columns = [''PlayerID'', ''Metric'', ''Status''],
          rows = [[Num 2, Str ''LastLoginDate'', Str ''Missing Post'']]\<rparr>"
proof -
  have h: "''PlayerID'' \<in> set (columns example_login)"
      "''LastLoginDate'' \<in> set (columns example_login)"
    by (simp_all add: example_login_def)
  show ?thesis
    using reconcile_login_missing_post[OF h, of "[Num 1, Num 2, Num 3]"] h
    by (simp add: example_login_def key_of_def value_of_def)
qed

section \<open>The claim about the loader\<close>

text \<open>
  C8: when both reads of the source succeed, \<open>validate_file\<close> with required columns
  returns the table of the full read, after the diagnostic with the columns of the sample
  and, when required columns are absent from the sample, one warning listing exactly
  those, in the order required; the absence does not stop the full read. The result is
  \<open>None\<close> only when one of the two reads raises.
\<close>

theorem validate_file_missing_columns:
  "(read_csv path (Some 100) = Inr sample \<longrightarrow> read_csv path None = Inr full \<longrightarrow>
      validate_file read_csv path (Some required_cols) =
        (Some full,
         [''Columns in '' @ basename path @ '': '' @ join_str '', '' (columns sample)] @
         (if \<exists>col\<in>set required_cols. col \<notin> set (columns sample)
          then [''Warning: Missing columns in '' @ basename path @ '': '' @
                  join_str '', '' (filter (\<lambda>col. col \<notin> set (columns sample)) required_cols)]
          else [])))
   \<and> (fst (validate_file read_csv path cols) = None \<longleftrightarrow>
        (\<exists>e. read_csv path (Some 100) = Inl e) \<or> (\<exists>e. read_csv path None = Inl e))"
proof -
  have "filter (\<lambda>col. col \<notin> set (columns sample)) required_cols \<noteq> [] \<longleftrightarrow>
      (\<exists>col\<in>set required_cols. col \<notin> set (columns sample))"
    by (auto simp: filter_empty_conv)
  then have a: "read_csv path (Some 100) = Inr sample \<longrightarrow> read_csv path None = Inr full \<longrightarrow>
      validate_file read_csv path (Some required_cols) =
        (Some full,
         [''Columns in '' @ basename path @ '': '' @ join_str '', '' (columns sample)] @
         (if \<exists>col\<in>set required_cols. col \<notin> set (columns sample)
          then [''Warning: Missing columns in '' @ basename path @ '': '' @
                  join_str '', '' (filter (\<lambda>col. col \<notin> set (columns sample)) required_cols)]
          else []))"
    by (simp add: validate_file_def Let_def)
  have b: "fst (validate_file read_csv path cols) = None \<longleftrightarrow>
        (\<exists>e. read_csv path (Some 100) = Inl e) \<or> (\<exists>e. read_csv path None = Inl e)"
    by (cases "read_csv path (Some 100)"; cases "read_csv path None")
       (simp_all add: validate_file_def Let_def)
  from a b show ?thesis by blast
qed

theorem validate_file_missing_columns_witness:
  "example_read ''temp_pre_20240101_120000.csv'' (Some 100) = Inr example_pre
   \<and> example_read ''temp_pre_20240101_120000.csv'' None = Inr example_pre
   \<and> validate_file example_read ''temp_pre_20240101_120000.csv''
        (Some [''PlayerID'', ''InteractiveBalance'', ''SubscriptionBalance'']) =
        (Some example_pre,
         [''Columns in temp_pre_20240101_120000.csv: PlayerID, Balance'',
          ''Warning: Missing columns in temp_pre_20240101_120000.csv: InteractiveBalance, SubscriptionBalance''])
   \<and> fst (validate_file example_read ''temp_login_20240101_120000.csv'' None) = None
   \<and> (\<exists>e. example_read ''temp_login_20240101_120000.csv'' (Some 100) = Inl e)"
proof -
  have r: "example_read ''temp_pre_20240101_120000.csv'' (Some 100) = Inr example_pre"
      "example_read ''temp_pre_20240101_120000.csv'' None = Inr example_pre"
    by (simp_all add: example_read_def)
  have e: "\<exists>e. example_read ''temp_login_20240101_120000.csv'' (Some 100) = Inl e"
    by (simp add: example_read_def)
  note t = validate_file_missing_columns[of example_read "''temp_pre_20240101_120000.csv''"
      example_pre example_pre "[''PlayerID'', ''InteractiveBalance'', ''SubscriptionBalance'']"]
  note u = validate_file_missing_columns[of example_read "''temp_login_20240101_120000.csv''"
      example_pre example_pre "[]" None]
  have v: "validate_file example_read ''temp_pre_20240101_120000.csv''
        (Some [''PlayerID'', ''InteractiveBalance'', ''SubscriptionBalance'']) =
        (Some example_pre,
         [''Columns in temp_pre_20240101_120000.csv: PlayerID, Balance'',
          ''Warning: Missing columns in temp_pre_20240101_120000.csv: InteractiveBalance, SubscriptionBalance''])"
    using t r by (simp add: example_pre_def basename_def)
  have w: "fst (validate_file example_read ''temp_login_20240101_120000.csv'' None) = None"
    using u e by blast
  from r v w e show ?thesis by blast
qed

section \<open>The claim about the run\<close>

lemma sequence_snoc:
  "sequence (xs @ [c]) =
     (case sequence xs of
        Inl e \<Rightarrow> Inl e
      | Inr rs \<Rightarrow> (case c of Inl e \<Rightarrow> Inl e | Inr df \<Rightarrow> Inr (rs @ [df])))"
  by (induction xs rule: sequence.induct) (auto split: sum.splits)

lemma append_result_sequence:
  "fst acc = sequence xs \<Longrightarrow> fst (append_result acc call) = sequence (xs @ [fst call])"
  by (simp add: append_result_def sequence_snoc split: sum.splits)

lemma reconcile_all_report:
  "fst (reconcile_all index_storage pre_df pre_login_df int_df sub_df login_df logged)
     = report (enabled_calls index_storage pre_df pre_login_df int_df sub_df login_df)"
proof -
  define c1 where "c1 = (case int_df of
        Some df \<Rightarrow> [fst (reconcile_metric index_storage pre_df df ''InteractiveBalance'')]
      | None \<Rightarrow> [])"
  define c2 where "c2 = (case sub_df of
          Some df \<Rightarrow> [fst (reconcile_metric index_storage pre_df df ''SubscriptionBalance'')]
        | None \<Rightarrow> [])"
  define c3 where "c3 = (case login_df of
          None \<Rightarrow> []
        | Some df \<Rightarrow>
            (case pre_login_df of
               Some pre_login \<Rightarrow>
                 [fst (reconcile_metric index_storage pre_login df ''LastLoginDate'')]
             | None \<Rightarrow>
                 [ebind (column_list pre_df ''PlayerID'') (\<lambda>pre_ids. reconcile_login pre_ids df)]))"
  define r0 :: "(error + 'a frame list) \<times> string list" where "r0 = (Inr [], logged)"
  define r1 where "r1 = (case int_df of
                  Some df \<Rightarrow> append_result r0
                             (reconcile_metric index_storage pre_df df ''InteractiveBalance'')
                | None \<Rightarrow> r0)"
  define r2 where "r2 = (case sub_df of
                  Some df \<Rightarrow> append_result r1
                             (reconcile_metric index_storage pre_df df ''SubscriptionBalance'')
                | None \<Rightarrow> r1)"
  define r3 where "r3 = (case login_df of
                  None \<Rightarrow> r2
                | Some df \<Rightarrow>
                    (case pre_login_df of
                       Some pre_login \<Rightarrow>
                         append_result r2
                           (reconcile_metric index_storage pre_login df ''LastLoginDate'')
                     | None \<Rightarrow>
                         append_result r2
                           (ebind (column_list pre_df ''PlayerID'')
                              (\<lambda>pre_ids. reconcile_login pre_ids df), [])))"
  have e0: "fst r0 = sequence []" by (simp add: r0_def)
  have e1: "fst r1 = sequence c1"
    unfolding r1_def c1_def using append_result_sequence[OF e0]
    by (cases int_df) (simp_all add: e0)
  have e2: "fst r2 = sequence (c1 @ c2)"
    unfolding r2_def c2_def using append_result_sequence[OF e1]
    by (cases sub_df) (simp_all add: e1)
  have e3: "fst r3 = sequence ((c1 @ c2) @ c3)"
    unfolding r3_def c3_def using append_result_sequence[OF e2]
    by (cases login_df; cases pre_login_df) (simp_all add: e2)
  have f: "fst (case fst r of Inl e \<Rightarrow> (Inl e, snd r)
                | Inr results \<Rightarrow> (case G results of Inl e \<Rightarrow> (Inl e, snd r)
                                  | Inr all_ex \<Rightarrow> (H all_ex, snd r)))
         = ebind (fst r) (\<lambda>results. ebind (G results) H)"
    for r :: "(error + 'a frame list) \<times> string list"
      and G :: "'a frame list \<Rightarrow> error + 'a frame" and H :: "'a frame \<Rightarrow> error + 'a outcome"
    by (simp add: ebind_def split: sum.splits)
  have g: "(\<lambda>all_ex. Inr (if \<not> is_empty all_ex then Exceptions all_ex else NoMismatches))
      = (\<lambda>all_ex::'a frame. Inr (if is_empty all_ex then NoMismatches else Exceptions all_ex)
           :: error + 'a outcome)"
    by (rule ext) simp
  have "fst (reconcile_all index_storage pre_df pre_login_df int_df sub_df login_df logged)
      = ebind (fst r3) (\<lambda>results.
          ebind (if results \<noteq> [] then concat_frames results else Inr empty_frame)
            (\<lambda>all_ex. Inr (if \<not> is_empty all_ex then Exceptions all_ex else NoMismatches)))"
    unfolding reconcile_all_def r0_def r1_def r2_def r3_def Let_def
    by (rule f)
  also have "\<dots> = report ((c1 @ c2) @ c3)"
    unfolding e3 report_def g by (rule refl)
  finally show ?thesis
    by (simp add: enabled_calls_def c1_def c2_def c3_def)
qed

lemma run_loaded:
  assumes "pre_file f" "preparer f \<noteq> []" "reviewer f \<noteq> []"
    "fst (validate_file read_csv (temp_path ''pre'' ts) None) = Some pre_df"
  shows "fst (run_reconciliation index_storage read_csv ts f)
     = report (enabled_calls index_storage pre_df
         (loaded read_csv ts ''prelogin'' (pre_login_file f))
         (loaded read_csv ts ''int'' (post_int_file f))
         (loaded read_csv ts ''sub'' (post_sub_file f))
         (loaded read_csv ts ''login'' (post_login_file f)))"
proof -
  have "fst (run_reconciliation index_storage read_csv ts f) =
      fst (reconcile_all index_storage pre_df
             (loaded read_csv ts ''prelogin'' (pre_login_file f))
             (loaded read_csv ts ''int'' (post_int_file f))
             (loaded read_csv ts ''sub'' (post_sub_file f))
             (loaded read_csv ts ''login'' (post_login_file f))
             (snd (validate_file read_csv (temp_path ''pre'' ts) None)
              @ snd (if pre_login_file f
                     then validate_file read_csv (temp_path ''prelogin'' ts) None else (None, []))
              @ snd (if post_int_file f
                     then validate_file read_csv (temp_path ''int'' ts) None else (None, []))
              @ snd (if post_sub_file f
                     then validate_file read_csv (temp_path ''sub'' ts) None else (None, []))
              @ snd (if post_login_file f
                     then validate_file read_csv (temp_path ''login'' ts) None else (None, []))))"
    using assms unfolding run_reconciliation_def Let_def loaded_def
    by (simp add: if_distrib[of fst] cong: if_cong)
  then show ?thesis
    by (simp only: reconcile_all_report)
qed

lemma example_sub_run:
  "reconcile_metric range_storage example_balances example_sub ''SubscriptionBalance''
     = (Inr example_sub_out, [])"
proof -
  have "reconcile_metric_chunked range_storage 1 example_balances example_sub ''SubscriptionBalance''
     = (Inr example_sub_out, [])"
    by code_simp
  then show ?thesis
    using reconcile_metric_any_batch[of CHUNK_SIZE 1 range_storage example_balances example_sub
        "''SubscriptionBalance''"]
    by (simp add: reconcile_metric_def CHUNK_SIZE_def)
qed

lemma example_reader_loads:
  "fst (validate_file example_reader (temp_path ''pre'' ''20240101_120000'') None)
     = Some example_balances"
  "loaded example_reader ''20240101_120000'' ''prelogin'' (pre_login_file example_full_form) = None"
  "loaded example_reader ''20240101_120000'' ''int'' (post_int_file example_full_form) = None"
  "loaded example_reader ''20240101_120000'' ''sub'' (post_sub_file example_full_form)
     = Some example_sub"
  "loaded example_reader ''20240101_120000'' ''login'' (post_login_file example_full_form)
     = Some example_login"
  by (simp_all add: loaded_def validate_file_def example_reader_def temp_path_def
      example_full_form_def Let_def)

lemma example_reader_fails:
  "fst (validate_file example_reader (temp_path ''prelogin'' ''20240101_120000'') None) = None"
  "fst (validate_file example_reader (temp_path ''int'' ''20240101_120000'') None) = None"
  by (simp_all add: validate_file_def example_reader_def temp_path_def)

lemma example_calls:
  "enabled_calls range_storage example_balances None None (Some example_sub) (Some example_login)
     = [Inr example_sub_out, Inr example_login_out]"
proof -
  have "ebind (column_list example_balances ''PlayerID'') (\<lambda>pre_ids. reconcile_login pre_ids example_login)
      = Inr example_login_out"
    by code_simp
  then show ?thesis
    by (simp add: enabled_calls_def example_sub_run)
qed

lemma example_report_eq:
  "report [Inr example_sub_out, Inr example_login_out] = Inr (Exceptions example_report)"
  by code_simp

lemma example_full_form_ok:
  "pre_file example_full_form" "preparer example_full_form \<noteq> []"
  "reviewer example_full_form \<noteq> []"
  by (simp_all add: example_full_form_def)

lemma example_full_run:
  "fst (run_reconciliation range_storage example_reader ''20240101_120000'' example_full_form)
     = Inr (Exceptions example_report)"
  using run_loaded[OF example_full_form_ok example_reader_loads(1), of range_storage]
  by (simp add: example_reader_loads example_calls example_report_eq)

text \<open>
  C7, as stated: a failed optional source only disables the metrics that depend on it.
  This fails for the pre-login source: in a run where its validation fails (and the post
  login table loads), the report still holds a row of the metric \<open>LastLoginDate\<close>. The
  metric is not disabled; lines 121 and 122 check instead that the keys of the pre table
  are present in the post login table.
\<close>

theorem run_reconciliation_failures_counterexample:
  "pre_login_file example_full_form
   \<and> fst (validate_file example_reader (temp_path ''prelogin'' ''20240101_120000'') None) = None
   \<and> fst (run_reconciliation range_storage example_reader ''20240101_120000'' example_full_form)
       = Inr (Exceptions example_report)
   \<and> [Num 2, Null, Null, Null, Str ''LastLoginDate'', Str ''Missing Post'']
       \<in> set (rows example_report)
   \<and> (\<exists>r\<in>set (rows example_report).
         getcol (columns example_report) ''Metric'' r = Str ''LastLoginDate'')"
  by (simp add: example_full_run example_reader_fails)
     (simp add: example_report_def example_full_form_def)

text \<open>
  C7: with the pre file uploaded and both names entered, a failed validation of the pre
  file ends the run with the message of line 111 and no report; the diagnostics are
  those of the five validations, so no reconciliation has run. When the pre file loads,
  the run reports exactly the calls whose sources are loaded, in the order of lines 115
  to 122: a failed optional post file takes away the call of its own metric and leaves
  the others; a failed pre-login file does not take away \<open>LastLoginDate\<close>, it replaces
  the comparison of the dates by the presence check on the keys of the pre table.
\<close>

theorem run_reconciliation_failures:
  assumes "pre_file f" "preparer f \<noteq> []" "reviewer f \<noteq> []"
  shows
   "(fst (validate_file read_csv (temp_path ''pre'' ts) None) = None \<longrightarrow>
       run_reconciliation index_storage read_csv ts f =
         (Inr (Error ''Pre file validation failed. See logs/internal_errors.txt.''),
          snd (validate_file read_csv (temp_path ''pre'' ts) None)
          @ (if pre_login_file f
             then snd (validate_file read_csv (temp_path ''prelogin'' ts) None) else [])
          @ (if post_int_file f
             then snd (validate_file read_csv (temp_path ''int'' ts) None) else [])
          @ (if post_sub_file f
             then snd (validate_file read_csv (temp_path ''sub'' ts) None) else [])
          @ (if post_login_file f
             then snd (validate_file read_csv (temp_path ''login'' ts) None) else [])))
    \<and> (\<forall>pre_df. fst (validate_file read_csv (temp_path ''pre'' ts) None) = Some pre_df \<longrightarrow>
         fst (run_reconciliation index_storage read_csv ts f)
           = report (enabled_calls index_storage pre_df
               (loaded read_csv ts ''prelogin'' (pre_login_file f))
               (loaded read_csv ts ''int'' (post_int_file f))
               (loaded read_csv ts ''sub'' (post_sub_file f))
               (loaded read_csv ts ''login'' (post_login_file f))))"
proof -
  have a: "fst (validate_file read_csv (temp_path ''pre'' ts) None) = None \<longrightarrow>
       run_reconciliation index_storage read_csv ts f =
         (Inr (Error ''Pre file validation failed. See logs/internal_errors.txt.''),
          snd (validate_file read_csv (temp_path ''pre'' ts) None)
          @ (if pre_login_file f
             then snd (validate_file read_csv (temp_path ''prelogin'' ts) None) else [])
          @ (if post_int_file f
             then snd (validate_file read_csv (temp_path ''int'' ts) None) else [])
          @ (if post_sub_file f
             then snd (validate_file read_csv (temp_path ''sub'' ts) None) else [])
          @ (if post_login_file f
             then snd (validate_file read_csv (temp_path ''login'' ts) None) else []))"
    using assms unfolding run_reconciliation_def Let_def by simp
  have b: "\<forall>pre_df. fst (validate_file read_csv (temp_path ''pre'' ts) None) = Some pre_df \<longrightarrow>
         fst (run_reconciliation index_storage read_csv ts f)
           = report (enabled_calls index_storage pre_df
               (loaded read_csv ts ''prelogin'' (pre_login_file f))
               (loaded read_csv ts ''int'' (post_int_file f))
               (loaded read_csv ts ''sub'' (post_sub_file f))
               (loaded read_csv ts ''login'' (post_login_file f)))"
    by (intro allI impI) (rule run_loaded[OF assms])
  show ?thesis
    by (intro conjI a b)
qed

theorem run_reconciliation_failures_witness:
  "pre_file example_full_form \<and> preparer example_full_form \<noteq> []
   \<and> reviewer example_full_form \<noteq> []
   \<and> fst (validate_file example_fail (temp_path ''pre'' ''20240101_120000'') None) = None
   \<and> run_reconciliation range_storage example_fail ''20240101_120000'' example_full_form =
       (Inr (Error ''Pre file validation failed. See logs/internal_errors.txt.''),
        [''Validation failed: No columns to parse from file'',
         ''Validation failed: No columns to parse from file'',
         ''Validation failed: No columns to parse from file'',
         ''Validation failed: No columns to parse from file'',
         ''Validation failed: No columns to parse from file''])
   \<and> fst (validate_file example_reader (temp_path ''pre'' ''20240101_120000'') None)
       = Some example_balances
   \<and> loaded example_reader ''20240101_120000'' ''prelogin'' (pre_login_file example_full_form)
       = None
   \<and> loaded example_reader ''20240101_120000'' ''int'' (post_int_file example_full_form) = None
   \<and> loaded example_reader ''20240101_120000'' ''sub'' (post_sub_file example_full_form)
       = Some example_sub
   \<and> loaded example_reader ''20240101_120000'' ''login'' (post_login_file example_full_form)
       = Some example_login
   \<and> enabled_calls range_storage example_balances None None (Some example_sub)
         (Some example_login)
       = [Inr example_sub_out, Inr example_login_out]
   \<and> fst (run_reconciliation range_storage example_reader ''20240101_120000'' example_full_form)
       = report [Inr example_sub_out, Inr example_login_out]
   \<and> report [Inr example_sub_out, Inr example_login_out] = Inr (Exceptions example_report)"
proof -
  have v0: "validate_file example_fail p None
      = (None, [''Validation failed: No columns to parse from file''])" for p
    by (simp add: validate_file_def example_fail_def)
  note a = run_reconciliation_failures[OF example_full_form_ok,
      of example_fail "''20240101_120000''" range_storage, THEN conjunct1]
  note b = run_reconciliation_failures[OF example_full_form_ok,
      of example_reader "''20240101_120000''" range_storage, THEN conjunct2, rule_format,
      OF example_reader_loads(1)]
  have r0: "run_reconciliation range_storage example_fail ''20240101_120000'' example_full_form =
       (Inr (Error ''Pre file validation failed. See logs/internal_errors.txt.''),
        [''Validation failed: No columns to parse from file'',
         ''Validation failed: No columns to parse from file'',
         ''Validation failed: No columns to parse from file'',
         ''Validation failed: No columns to parse from file'',
         ''Validation failed: No columns to parse from file''])"
    using a by (simp add: v0 example_full_form_def)
  have r1: "fst (run_reconciliation range_storage example_reader ''20240101_120000''
                 example_full_form)
       = report [Inr example_sub_out, Inr example_login_out]"
    using b by (simp add: example_reader_loads example_calls)
  show ?thesis
    by (intro conjI example_full_form_ok example_reader_loads example_calls example_report_eq
        r0 r1) (simp add: v0)
qed

section \<open>The claim about the input tables\<close>

lemma store_facts:
  "(s @ [a, b, c, d]) ! (Suc (length s)) = b"
  "(s @ [a, b, c, d]) ! (length s + 3) = d"
  "(s @ [a, b]) ! (Suc (length s)) = b"
  "(s @ [a]) ! (length s) = a"
  "(s @ [a, b, c]) ! (length s + 2) = c"
  "(s @ [a, b, c, d])[Suc (length s) := x] = s @ [a, x, c, d]"
  "(s @ [a, b, c, d])[length s + 3 := x] = s @ [a, b, c, x]"
  "(s @ [a, b])[Suc (length s) := x] = s @ [a, x]"
  by (simp_all add: nth_append list_update_append)

lemma reconcile_metric_st_eq:
  assumes "pre_ref < length s" "post_ref < length s"
    "s ! pre_ref = Frame pre_df" "s ! post_ref = Frame post_df"
  shows "fst (reconcile_metric_st index_storage s pre_ref post_ref metric)
       = reconcile_metric index_storage pre_df post_df metric
     \<and> take (length s) (snd (reconcile_metric_st index_storage s pre_ref post_ref metric)) = s"
proof (cases "metric \<notin> set (columns pre_df) \<or> metric \<notin> set (columns post_df)")
  case True
  with assms show ?thesis
    by (auto simp: reconcile_metric_st_def reconcile_metric_def reconcile_metric_chunked_def)
next
  case False
  show ?thesis
  proof (cases "select pre_df [''PlayerID'', metric]")
    case (Inl e)
    with False assms show ?thesis
      by (simp add: reconcile_metric_st_def reconcile_metric_def reconcile_metric_chunked_def)
  next
    case pre_sel: (Inr pre_sel)
    show ?thesis
    proof (cases "select post_df [''PlayerID'', metric]")
      case (Inl e)
      with False assms pre_sel show ?thesis
        by (simp add: reconcile_metric_st_def reconcile_metric_def reconcile_metric_chunked_def
            alloc_def nth_append)
    next
      case post_sel: (Inr post_sel)
      show ?thesis
      proof (cases "set_index (dropna pre_sel) ''PlayerID''")
        case (Inl e)
        with False assms pre_sel post_sel show ?thesis
          by (simp add: reconcile_metric_st_def reconcile_metric_def reconcile_metric_chunked_def
            alloc_def nth_append set_index_inplace_def store_facts)
      next
        case pre_ix: (Inr pre_ix)
        show ?thesis
        proof (cases "set_index (dropna post_sel) ''PlayerID''")
          case (Inl e)
          with False assms pre_sel post_sel pre_ix show ?thesis
            by (simp add: reconcile_metric_st_def reconcile_metric_def reconcile_metric_chunked_def
              alloc_def nth_append set_index_inplace_def store_facts)
        next
          case post_ix: (Inr post_ix)
          with False assms pre_sel post_sel pre_ix show ?thesis
            by (simp add: reconcile_metric_st_def reconcile_metric_def reconcile_metric_chunked_def
              alloc_def nth_append set_index_inplace_def store_facts Let_def)
        qed
      qed
    qed
  qed
qed

lemma reconcile_login_st_eq:
  assumes "post_ref < length s" "s ! post_ref = Frame post_df"
  shows "fst (reconcile_login_st s pre_ids post_ref) = reconcile_login pre_ids post_df
     \<and> take (length s) (snd (reconcile_login_st s pre_ids post_ref)) = s"
proof (cases "select post_df [''PlayerID'', ''LastLoginDate'']")
  case (Inl e)
  with assms show ?thesis
    by (simp add: reconcile_login_st_def reconcile_login_def)
next
  case post_sel: (Inr post_sel)
  show ?thesis
  proof (cases "set_index (dropna post_sel) ''PlayerID''")
    case (Inl e)
    with assms post_sel show ?thesis
      by (simp add: reconcile_login_st_def reconcile_login_def alloc_def nth_append
          set_index_inplace_def store_facts)
  next
    case (Inr post_ix)
    with assms post_sel show ?thesis
      by (simp add: reconcile_login_st_def reconcile_login_def alloc_def nth_append
          set_index_inplace_def store_facts Let_def)
  qed
qed

text \<open>
  C9: on the store, \<open>reconcile_metric\<close> and \<open>reconcile_login\<close> compute what they
  compute on the tables themselves, and every object that was in the store before the
  call is the same after it, the caller's tables among them: the re-indexing in place
  is applied to objects allocated by the call.
\<close>

theorem reconciliation_leaves_inputs:
  assumes "pre_ref < length s" "post_ref < length s"
    "s ! pre_ref = Frame pre_df" "s ! post_ref = Frame post_df"
  shows "fst (reconcile_metric_st index_storage s pre_ref post_ref metric)
       = reconcile_metric index_storage pre_df post_df metric
     \<and> take (length s) (snd (reconcile_metric_st index_storage s pre_ref post_ref metric)) = s
     \<and> snd (reconcile_metric_st index_storage s pre_ref post_ref metric) ! pre_ref = Frame pre_df
     \<and> snd (reconcile_metric_st index_storage s pre_ref post_ref metric) ! post_ref = Frame post_df
     \<and> fst (reconcile_login_st s pre_ids post_ref) = reconcile_login pre_ids post_df
     \<and> take (length s) (snd (reconcile_login_st s pre_ids post_ref)) = s
     \<and> snd (reconcile_login_st s pre_ids post_ref) ! post_ref = Frame post_df"
proof -
  have keep: "xs ! i = s ! i" if "take (length s) xs = s" "i < length s" for xs i
    using that by (metis nth_take)
  from reconcile_metric_st_eq[OF assms, of index_storage metric] reconcile_login_st_eq[OF assms(2,4), of pre_ids]
  show ?thesis
    using assms by (auto dest: keep)
qed

theorem reconciliation_leaves_inputs_witness:
  "(0::nat) < length example_store \<and> (1::nat) < length example_store
   \<and> example_store ! 0 = Frame example_pre \<and> example_store ! 1 = Frame example_post
   \<and> fst (reconcile_metric_st range_storage example_store 0 1 ''Balance'')
       = reconcile_metric range_storage example_pre example_post ''Balance''
   \<and> take (length example_store) (snd (reconcile_metric_st range_storage example_store 0 1 ''Balance''))
       = example_store
   \<and> snd (reconcile_metric_st range_storage example_store 0 1 ''Balance'') ! 0 = Frame example_pre
   \<and> snd (reconcile_metric_st range_storage example_store 0 1 ''Balance'') ! 1 = Frame example_post
   \<and> snd (reconcile_metric_st range_storage example_store 0 1 ''Balance'') ! 3
       = Keyed \<lparr>index_name = ''PlayerID'', kcolumns = [''Balance''],
                entries = [(Num 1, [Num 100]), (Num 2, [Num 200])]\<rparr>
   \<and> fst (reconcile_login_st example_store [Num 1, Num 2] 1)
       = reconcile_login [Num 1, Num 2] example_post
   \<and> take (length example_store) (snd (reconcile_login_st example_store [Num 1, Num 2] 1))
       = example_store
   \<and> snd (reconcile_login_st example_store [Num 1, Num 2] 1) ! 1 = Frame example_post"
proof -
  have h: "(0::nat) < length example_store" "(1::nat) < length example_store"
    "example_store ! 0 = Frame example_pre" "example_store ! 1 = Frame example_post"
    by (simp_all add: example_store_def)
  have k: "snd (reconcile_metric_st range_storage example_store 0 1 ''Balance'') ! 3
       = Keyed \<lparr>index_name = ''PlayerID'', kcolumns = [''Balance''],
                entries = [(Num 1, [Num 100]), (Num 2, [Num 200])]\<rparr>"
    by (simp add: reconcile_metric_st_def example_store_def example_pre_def example_post_def
        alloc_def select_def dropna_def set_index_inplace_def set_index_def Let_def)
  from reconciliation_leaves_inputs[OF h, of range_storage "''Balance''" "[Num 1, Num 2]"] k h show ?thesis by simp
qed

end
